theory Spec2Isabelle
  imports Main "HOL-Library.Log_Nat" "HOL-Library.Word"
begin

section \<open>Python values\<close>

text \<open>
  A Python \<open>str\<close> is a sequence of Unicode code points, so \<open>len\<close> is \<open>length\<close>.
  ASCII literals of the source are written \<open>ascii ''...''\<close>, the Russian labels as
  their code points. A Python \<open>float\<close> is an IEEE double, kept as its 64 bits.
\<close>

type_synonym pystr = "nat list"
type_synonym pyfloat = "64 word"

definition ascii :: "string \<Rightarrow> pystr" where
  "ascii s = map of_char s"

text \<open>Exceptions are values; a computation that may raise returns \<open>py_error + 'a\<close>.\<close>

datatype py_error =
    ValueError
  | IndexError
  | AttributeError
  | KeyError
  | OverflowError
  | UnicodeEncodeError
  | BlockingDetectedError pystr
  | Exception pystr

definition then_do :: "py_error + 'a \<Rightarrow> ('a \<Rightarrow> py_error + 'b) \<Rightarrow> py_error + 'b" where
  "then_do m f = (case m of Inl e \<Rightarrow> Inl e | Inr v \<Rightarrow> f v)"

text \<open>
  \<open>try: body  except (E1, E2): handler\<close>: an exception of a listed class is replaced
  by the handler's value, any other exception propagates. \<open>UnicodeEncodeError\<close> is a
  subclass of \<open>ValueError\<close>; the other classes here are unrelated.
\<close>

definition is_caught :: "py_error \<Rightarrow> py_error list \<Rightarrow> bool" where
  "is_caught e classes \<longleftrightarrow>
     e \<in> set classes \<or> (e = UnicodeEncodeError \<and> ValueError \<in> set classes)"

definition try_except :: "py_error + 'a \<Rightarrow> py_error list \<Rightarrow> 'a \<Rightarrow> py_error + 'a" where
  "try_except body classes handler =
     (case body of
        Inr v \<Rightarrow> Inr v
      | Inl e \<Rightarrow> if is_caught e classes then Inr handler else Inl e)"

text \<open>
  A point in time (\<open>TIMESTAMPTZ\<close>, an aware \<open>datetime\<close>) is a number of microseconds
  since the epoch; a calendar date is a day number. A \<open>datetime\<close> carries its
  \<open>tzinfo\<close>: the UTC offset in minutes, or \<open>None\<close> when it is naive.
\<close>

type_synonym instant = int
type_synonym pydate = int

record pydatetime =
  instant_of :: instant
  tzinfo :: "int option"

definition timedelta_minutes :: "nat \<Rightarrow> int" where
  "timedelta_minutes m = int m * 60000000"

definition one_day :: int where
  "one_day = 24 * 60 * 60 * 1000000"

definition now_utc :: "instant \<Rightarrow> pydatetime" where
  "now_utc t = \<lparr>instant_of = t, tzinfo = Some 0\<rparr>"

text \<open>The calendar date a \<open>datetime\<close> shows: the day of its wall-clock time.\<close>

definition date_of :: "pydatetime \<Rightarrow> pydate" where
  "date_of d =
     (instant_of d + (case tzinfo d of None \<Rightarrow> 0 | Some off \<Rightarrow> off * 60000000)) div one_day"

subsection \<open>Strings\<close>

text \<open>
  \<open>str.isspace\<close> for one code point: the whitespace that \<open>strip()\<close> and \<open>split()\<close>
  remove.
\<close>

definition is_space :: "nat \<Rightarrow> bool" where
  "is_space c \<longleftrightarrow>
     (9 \<le> c \<and> c \<le> 13) \<or> (28 \<le> c \<and> c \<le> 32) \<or> c = 133 \<or> c = 160 \<or> c = 5760
     \<or> (8192 \<le> c \<and> c \<le> 8202) \<or> c = 8232 \<or> c = 8233 \<or> c = 8239 \<or> c = 8287
     \<or> c = 12288"

definition strip :: "pystr \<Rightarrow> pystr" where
  "strip s = rev (dropWhile is_space (rev (dropWhile is_space s)))"

text \<open>\<open>s.split()\<close>: the maximal runs of non-whitespace.\<close>

function split_ws :: "pystr \<Rightarrow> pystr list" where
  "split_ws s =
     (let t = dropWhile is_space s
      in if t = [] then []
         else takeWhile (\<lambda>c. \<not> is_space c) t # split_ws (dropWhile (\<lambda>c. \<not> is_space c) t))"
  by pat_completeness auto
termination
proof (relation "measure length")
  show "wf (measure length)" by simp
next
  fix s t :: pystr
  assume t: "t = dropWhile is_space s" and ne: "t \<noteq> []"
  from ne have "\<not> is_space (hd t)"
    unfolding t by (rule hd_dropWhile)
  with ne have "length (dropWhile (\<lambda>c. \<not> is_space c) t) < length t"
    by (cases t) (simp_all add: length_dropWhile_le le_imp_less_Suc)
  moreover have "length t \<le> length s"
    unfolding t by (rule length_dropWhile_le)
  ultimately show "(dropWhile (\<lambda>c. \<not> is_space c) t, s) \<in> measure length"
    by simp
qed

declare split_ws.simps [simp del]

text \<open>\<open>s.split(sep)\<close> for a one-character separator, and \<open>sep.join(parts)\<close>.\<close>

fun split_on :: "nat \<Rightarrow> pystr \<Rightarrow> pystr list" where
  "split_on sep [] = [[]]"
| "split_on sep (c # cs) =
     (if c = sep then [] # split_on sep cs
      else (case split_on sep cs of
              [] \<Rightarrow> [[c]]
            | w # ws \<Rightarrow> (c # w) # ws))"

fun join :: "pystr \<Rightarrow> pystr list \<Rightarrow> pystr" where
  "join sep [] = []"
| "join sep [w] = w"
| "join sep (w # v # ws) = w @ sep @ join sep (v # ws)"

text \<open>\<open>s.replace(c, "")\<close> for a one-character \<open>c\<close>.\<close>

definition remove_char :: "nat \<Rightarrow> pystr \<Rightarrow> pystr" where
  "remove_char c s = filter (\<lambda>x. x \<noteq> c) s"

fun startswith :: "pystr \<Rightarrow> pystr \<Rightarrow> bool" where
  "startswith s [] = True"
| "startswith [] (p # ps) = False"
| "startswith (c # cs) (p # ps) = (c = p \<and> startswith cs ps)"

text \<open>\<open>needle in haystack\<close> for strings.\<close>

fun py_in :: "pystr \<Rightarrow> pystr \<Rightarrow> bool" where
  "py_in needle [] = (needle = [])"
| "py_in needle (c # cs) = (startswith (c # cs) needle \<or> py_in needle cs)"

text \<open>\<open>xs.index(x)\<close> raises \<open>ValueError\<close> when \<open>x\<close> is absent; \<open>xs[i]\<close> raises
  \<open>IndexError\<close> out of range.\<close>

fun list_index :: "'a list \<Rightarrow> 'a \<Rightarrow> py_error + nat" where
  "list_index [] x = Inl ValueError"
| "list_index (y # ys) x =
     (if y = x then Inr 0
      else (case list_index ys x of Inl e \<Rightarrow> Inl e | Inr i \<Rightarrow> Inr (Suc i)))"

definition py_get :: "'a list \<Rightarrow> nat \<Rightarrow> py_error + 'a" where
  "py_get xs i = (if i < length xs then Inr (xs ! i) else Inl IndexError)"

text \<open>\<open>a or b\<close> on optional strings: \<open>a\<close> when it is neither \<open>None\<close> nor empty.\<close>

definition py_or :: "pystr option \<Rightarrow> pystr option \<Rightarrow> pystr option" where
  "py_or a b = (case a of None \<Rightarrow> b | Some s \<Rightarrow> if s = [] then b else Some s)"

subsection \<open>The libraries the code calls\<close>

text \<open>
  The regular expressions of the source. Those with a backslash or a non-ASCII character
  are named; the others are given by their text.
  \<^item> \<open>PRICE_RE\<close>: one or more digits or whitespace in a group, optional whitespace, the
    tenge sign U+20B8.
  \<^item> \<open>MILEAGE_RE\<close>: digits, possibly separated by whitespace, in a group, optional
    whitespace, then the unit in Cyrillic or Latin, case-insensitively.
  \<^item> \<open>ENGINE_VOLUME_RE\<close>: digits with an optional decimal part, in a group.
  \<^item> \<open>ENGINE_TYPE_RE\<close>: a parenthesised text, its inside the group.
  \<^item> \<open>YEAR_PREFIX_RE\<close>: four digits at the start.
  \<^item> \<open>YEAR_RE\<close>: a word of four digits that begins with 19 or 20, in a group.
\<close>

datatype regex =
    PRICE_RE
  | MILEAGE_RE
  | ENGINE_VOLUME_RE
  | ENGINE_TYPE_RE
  | YEAR_PREFIX_RE
  | YEAR_RE
  | Pattern pystr

record pymatch =
  group0 :: pystr
  group1 :: pystr

record img =
  data_src :: "pystr option"
  src :: "pystr option"
  data_lazy_src :: "pystr option"

text \<open>
  What the code reads of the document BeautifulSoup builds: \<open>soup.get_text("\n")\<close>,
  the text \<open>get_text(" ", strip=True)\<close> of \<open>soup.find("h1")\<close> when there is an
  \<open>h1\<close>, and the three attributes the code asks of every element of
  \<open>soup.find_all("img")\<close>, in document order.
\<close>

record soup_doc =
  doc_text :: pystr
  doc_h1 :: "pystr option"
  doc_imgs :: "img list"

text \<open>
  What the code takes from outside the repository: the Unicode tables of the Python
  runtime, the \<open>re\<close> engine, the number parsers and the HTML parser. They are parameters
  of the model; every theorem holds for all of them.
  \<^item> \<open>unicode_lower s i\<close>: what \<open>s.lower()\<close> puts for the non-ASCII code point at
    index \<open>i\<close> of \<open>s\<close>;
  \<^item> \<open>str_isupper\<close>: \<open>s.isupper()\<close>;
  \<^item> \<open>re_search p ignorecase s\<close>: the match object of \<open>re.search\<close>, \<open>None\<close> when
    there is no match; \<open>re_match p s\<close>: the same for \<open>re.match\<close>;
  \<^item> \<open>int_of_str\<close>, \<open>float_of_str\<close>: \<open>int(s)\<close> and \<open>float(s)\<close>, \<open>None\<close> when they
    raise \<open>ValueError\<close>;
  \<^item> \<open>lxml_document html\<close>: what the parser makes of a string it can encode: the
    document, or the exception it raises.
\<close>

record pylib =
  unicode_lower :: "pystr \<Rightarrow> nat \<Rightarrow> pystr"
  str_isupper :: "pystr \<Rightarrow> bool"
  re_search :: "regex \<Rightarrow> bool \<Rightarrow> pystr \<Rightarrow> pymatch option"
  re_match :: "regex \<Rightarrow> pystr \<Rightarrow> pymatch option"
  int_of_str :: "pystr \<Rightarrow> int option"
  float_of_str :: "pystr \<Rightarrow> pyfloat option"
  lxml_document :: "pystr \<Rightarrow> py_error + soup_doc"

text \<open>
  \<open>BeautifulSoup(html, "lxml")\<close>. The string is handed to the parser encoded; a string
  that holds a surrogate code point (U+D800 to U+DFFF, which in a Python \<open>str\<close> is
  always a lone surrogate) cannot be encoded, and the call raises \<open>UnicodeEncodeError\<close>.
\<close>

definition has_surrogate :: "pystr \<Rightarrow> bool" where
  "has_surrogate s = list_ex (\<lambda>c. 55296 \<le> c \<and> c \<le> 57343) s"

definition beautiful_soup :: "pylib \<Rightarrow> pystr \<Rightarrow> py_error + soup_doc" where
  "beautiful_soup L html =
     (if has_surrogate html then Inl UnicodeEncodeError else lxml_document L html)"

text \<open>\<open>s.lower()\<close>: A to Z are shifted, the rest of ASCII is kept, the Unicode tables
  decide the others.\<close>

definition lower_at :: "pylib \<Rightarrow> pystr \<Rightarrow> nat \<Rightarrow> pystr" where
  "lower_at L s i =
     (let c = s ! i
      in if 65 \<le> c \<and> c \<le> 90 then [c + 32]
         else if c < 128 then [c]
         else unicode_lower L s i)"

definition str_lower :: "pylib \<Rightarrow> pystr \<Rightarrow> pystr" where
  "str_lower L s = concat (map (lower_at L s) [0..<length s])"

definition py_int :: "pylib \<Rightarrow> pystr \<Rightarrow> py_error + int" where
  "py_int L s = (case int_of_str L s of None \<Rightarrow> Inl ValueError | Some n \<Rightarrow> Inr n)"

definition py_float :: "pylib \<Rightarrow> pystr \<Rightarrow> py_error + pyfloat" where
  "py_float L s = (case float_of_str L s of None \<Rightarrow> Inl ValueError | Some x \<Rightarrow> Inr x)"

section \<open>The work queue: \<open>ctl.scrape_queue\<close>\<close>

datatype qstate = NEW | RETRY | FETCHED | INACTIVE

record queue_row =
  q_listing_id :: int
  q_url :: pystr
  q_state :: qstate
  q_attempts :: nat
  q_last_attempt_at :: "instant option"
  q_next_retry_at :: "instant option"
  q_last_http_status :: "int option"
  q_last_error :: "pystr option"

text \<open>\<open>UPDATE t SET ... WHERE w\<close>: every row that satisfies \<open>w\<close> is rewritten, in place.\<close>

definition sql_update :: "('r \<Rightarrow> bool) \<Rightarrow> ('r \<Rightarrow> 'r) \<Rightarrow> 'r list \<Rightarrow> 'r list" where
  "sql_update w f t = map (\<lambda>r. if w r then f r else r) t"

text \<open>
  \<open>schedule_retry\<close> (fetch_listing.py): \<open>backoff_minutes = min(2 ** attempts, 60*24)\<close>,
  \<open>next_retry = now + timedelta(minutes=backoff_minutes)\<close>, then one \<open>UPDATE\<close> of the
  row of \<open>listing_id\<close>. \<open>attempts\<close> is a count (the column starts at 0 and is only
  incremented), hence a natural number.
\<close>

definition backoff_minutes :: "nat \<Rightarrow> nat" where
  "backoff_minutes attempts = min (2 ^ attempts) (60 * 24)"

definition schedule_retry ::
  "instant \<Rightarrow> int \<Rightarrow> nat \<Rightarrow> int \<Rightarrow> pystr \<Rightarrow> queue_row list \<Rightarrow> queue_row list" where
  "schedule_retry now listing_id attempts status error queue =
     (let next_retry = now + timedelta_minutes (backoff_minutes attempts)
      in sql_update (\<lambda>r. q_listing_id r = listing_id)
           (\<lambda>r. r\<lparr>q_state := RETRY, q_attempts := attempts,
                  q_last_http_status := Some status, q_last_error := Some error,
                  q_next_retry_at := Some next_retry\<rparr>)
           queue)"

text \<open>\<open>update_state\<close> (fetch_listing.py): sets the state and clears \<open>next_retry_at\<close>.\<close>

definition update_state ::
  "int \<Rightarrow> qstate \<Rightarrow> int \<Rightarrow> pystr option \<Rightarrow> queue_row list \<Rightarrow> queue_row list" where
  "update_state listing_id state status error queue =
     sql_update (\<lambda>r. q_listing_id r = listing_id)
       (\<lambda>r. r\<lparr>q_state := state, q_last_http_status := Some status,
              q_last_error := error, q_next_retry_at := None\<rparr>)
       queue"

definition example_row :: queue_row where
  "example_row = \<lparr>q_listing_id = 101, q_url = ascii ''https://kolesa.kz/a/show/101'',
     q_state = NEW, q_attempts = 2, q_last_attempt_at = Some 5, q_next_retry_at = None,
     q_last_http_status = None, q_last_error = None\<rparr>"

section \<open>The HTML extractor: parse_listing_html.py\<close>

text \<open>The labels and markers of the source, as code points.\<close>

definition label_city :: pystr where
  "label_city = [1043, 1086, 1088, 1086, 1076]"

definition label_region :: pystr where
  "label_region = [1056, 1077, 1075, 1080, 1086, 1085]"

definition label_oblast :: pystr where
  "label_oblast = [1054, 1073, 1083, 1072, 1089, 1090, 1100]"

definition label_generation :: pystr where
  "label_generation = [1055, 1086, 1082, 1086, 1083, 1077, 1085, 1080, 1077]"

definition label_body :: pystr where
  "label_body = [1050, 1091, 1079, 1086, 1074]"

definition label_transmission :: pystr where
  "label_transmission =
     [1050, 1086, 1088, 1086, 1073, 1082, 1072, 32, 1087, 1077, 1088, 1077, 1076, 1072, 1095]"

definition label_drivetrain :: pystr where
  "label_drivetrain = [1055, 1088, 1080, 1074, 1086, 1076]"

definition label_steering :: pystr where
  "label_steering = [1056, 1091, 1083, 1100]"

definition label_color :: pystr where
  "label_color = [1062, 1074, 1077, 1090]"

definition label_customs :: pystr where
  "label_customs =
     [1056, 1072, 1089, 1090, 1072, 1084, 1086, 1078, 1077, 1085, 32, 1074, 32,
      1050, 1072, 1079, 1072, 1093, 1089, 1090, 1072, 1085, 1077]"

definition label_mileage :: pystr where
  "label_mileage = [1055, 1088, 1086, 1073, 1077, 1075]"

definition label_mileage_km :: pystr where
  "label_mileage_km = [1055, 1088, 1086, 1073, 1077, 1075, 44, 32, 1082, 1084]"

definition label_engine :: pystr where
  "label_engine =
     [1054, 1073, 1098, 1077, 1084, 32, 1076, 1074, 1080, 1075, 1072, 1090, 1077, 1083, 1103,
      44, 32, 1083]"

definition label_verified_seller :: pystr where
  "label_verified_seller =
     [1055, 1088, 1086, 1074, 1077, 1088, 1077, 1085, 1085, 1099, 1081, 32,
      1087, 1088, 1086, 1076, 1072, 1074, 1077, 1094]"

definition label_options :: pystr where
  "label_options =
     [1054, 1087, 1094, 1080, 1080, 32, 1080, 32,
      1093, 1072, 1088, 1072, 1082, 1090, 1077, 1088, 1080, 1089, 1090, 1080, 1082, 1080]"

definition word_yes :: pystr where
  "word_yes = [1044, 1072]"

definition word_no :: pystr where
  "word_no = [1053, 1077, 1090]"

definition skip_words :: "pystr list" where
  "skip_words = [[1075, 46], [1075, 1086, 1076], ascii ''year'']"

text \<open>The record \<open>parse_listing\<close> returns: one field for every key of the dict.\<close>

record listing =
  listing_id :: int
  url :: pystr
  title :: "pystr option"
  price_kzt :: "int option"
  city :: "pystr option"
  region :: "pystr option"
  make' :: "pystr option"
  model :: "pystr option"
  generation :: "pystr option"
  trim :: "pystr option"
  car_year :: "int option"
  mileage_km :: "int option"
  body_type :: "pystr option"
  engine_volume_l :: "pyfloat option"
  engine_type :: "pystr option"
  transmission :: "pystr option"
  drivetrain :: "pystr option"
  steering :: "pystr option"
  color :: "pystr option"
  customs_cleared :: "bool option"
  seller_name :: "pystr option"
  seller_type :: pystr
  options_text :: "pystr option"
  options_list :: "pystr list"
  photos :: "pystr list"
  photo_count :: nat

text \<open>\<open>_clean\<close>: \<open>None\<close> stays, whitespace is collapsed, an empty result is \<open>None\<close>.\<close>

definition clean :: "pystr option \<Rightarrow> pystr option" where
  "clean s =
     (case s of
        None \<Rightarrow> None
      | Some s \<Rightarrow> (let s = join [32] (split_ws s) in if s \<noteq> [] then Some s else None))"

text \<open>
  \<open>text_lines = [ln.strip() for ln in soup.get_text("\n").split("\n") if ln.strip()]\<close>
  and \<open>text = "\n".join(text_lines)\<close>.
\<close>

definition text_lines_of :: "soup_doc \<Rightarrow> pystr list" where
  "text_lines_of soup =
     map strip (filter (\<lambda>ln. strip ln \<noteq> []) (split_on 10 (doc_text soup)))"

definition find_value_after :: "pystr list \<Rightarrow> pystr \<Rightarrow> py_error + pystr option" where
  "find_value_after text_lines label =
     try_except
       (then_do (list_index text_lines label) (\<lambda>i.
          if i + 1 < length text_lines
          then then_do (py_get text_lines (i + 1)) (\<lambda>v. Inr (clean (Some v)))
          else Inr None))
       [ValueError, IndexError] None"

text \<open>\<open>a or b\<close> where both sides are calls: the right one is only made when the left
  one is \<open>None\<close> or empty.\<close>

definition or_else ::
  "py_error + pystr option \<Rightarrow> py_error + pystr option \<Rightarrow> py_error + pystr option" where
  "or_else a b =
     then_do a (\<lambda>x. case x of None \<Rightarrow> b | Some s \<Rightarrow> if s = [] then b else Inr x)"

text \<open>The digits of a matched group: \<open>int(g.replace(" ", "").replace(NBSP, ""))\<close>,
  with \<open>except (ValueError, AttributeError): pass\<close> around it.\<close>

definition int_of_group :: "pylib \<Rightarrow> pymatch \<Rightarrow> py_error + int option" where
  "int_of_group L m =
     try_except
       (then_do (py_int L (remove_char 160 (remove_char 32 (group1 m)))) (\<lambda>n. Inr (Some n)))
       [ValueError, AttributeError] None"

definition parse_price :: "pylib \<Rightarrow> pystr \<Rightarrow> py_error + int option" where
  "parse_price L text =
     (case re_search L PRICE_RE False text of
        None \<Rightarrow> Inr None
      | Some m \<Rightarrow> int_of_group L m)"

definition parse_customs :: "pystr option \<Rightarrow> bool option" where
  "parse_customs customs =
     (if customs = Some word_yes then Some True
      else if customs = Some word_no then Some False
      else None)"

definition parse_mileage :: "pylib \<Rightarrow> pystr list \<Rightarrow> pystr \<Rightarrow> py_error + int option" where
  "parse_mileage L text_lines text =
     then_do
       (case re_search L MILEAGE_RE True text of
          None \<Rightarrow> Inr None
        | Some m \<Rightarrow> int_of_group L m)
       (\<lambda>mileage_km.
          if mileage_km = None
          then then_do
                 (or_else (find_value_after text_lines label_mileage)
                    (find_value_after text_lines label_mileage_km))
                 (\<lambda>mileage_label.
                    (case py_or mileage_label None of
                       None \<Rightarrow> Inr mileage_km
                     | Some mileage_label \<Rightarrow>
                         (case re_search L MILEAGE_RE True mileage_label of
                            None \<Rightarrow> Inr mileage_km
                          | Some m \<Rightarrow>
                              try_except
                                (then_do
                                   (py_int L (remove_char 160 (remove_char 32 (group1 m))))
                                   (\<lambda>n. Inr (Some n)))
                                [ValueError, AttributeError] mileage_km)))
          else Inr mileage_km)"

definition parse_engine ::
  "pylib \<Rightarrow> pystr option \<Rightarrow> py_error + (pyfloat option \<times> pystr option)" where
  "parse_engine L engine_raw =
     (case py_or engine_raw None of
        None \<Rightarrow> Inr (None, None)
      | Some raw \<Rightarrow>
          then_do
            (case re_search L ENGINE_VOLUME_RE False raw of
               None \<Rightarrow> Inr None
             | Some vol_m \<Rightarrow>
                 try_except (then_do (py_float L (group1 vol_m)) (\<lambda>x. Inr (Some x)))
                   [ValueError, AttributeError] None)
            (\<lambda>engine_volume_l.
               Inr (engine_volume_l,
                    (case re_search L ENGINE_TYPE_RE False raw of
                       None \<Rightarrow> None
                     | Some typ_m \<Rightarrow> clean (Some (group1 typ_m))))))"

text \<open>The seller block: the line after the marker, only looked for when the marker is a
  line of the page.\<close>

definition parse_seller :: "pystr list \<Rightarrow> py_error + pystr option" where
  "parse_seller text_lines =
     (if label_verified_seller \<in> set text_lines
      then try_except
             (then_do (list_index text_lines label_verified_seller) (\<lambda>i.
                if i + 1 < length text_lines
                then then_do (py_get text_lines (i + 1)) (\<lambda>v. Inr (clean (Some v)))
                else Inr None))
             [ValueError, IndexError] None
      else Inr None)"

text \<open>
  The options: the loop over \<open>range(i + 1, min(i + 20, len(text_lines)))\<close> breaks at a
  header line and keeps the non-empty lines before it.
\<close>

definition is_section_header :: "pylib \<Rightarrow> pystr \<Rightarrow> bool" where
  "is_section_header L line \<longleftrightarrow>
     line \<noteq> [] \<and> (str_isupper L line \<or> line \<in> set [label_city, label_generation, label_body])"

definition parse_options ::
  "pylib \<Rightarrow> pystr list \<Rightarrow> py_error + (pystr option \<times> pystr list)" where
  "parse_options L text_lines =
     (if label_options \<in> set text_lines
      then try_except
             (then_do (list_index text_lines label_options) (\<lambda>i.
                let lines = map (\<lambda>j. text_lines ! j)
                              [i + 1 ..< min (i + 20) (length text_lines)];
                    opts = filter (\<lambda>line. line \<noteq> [])
                             (takeWhile (\<lambda>line. \<not> is_section_header L line) lines)
                in Inr (if opts \<noteq> [] then clean (Some (join (ascii ''; '') opts)) else None,
                        opts)))
             [ValueError, IndexError] (None, [])
      else Inr (None, []))"

text \<open>The photos: the first of the three attributes that is set and non-empty, kept when
  it is absolute or site-relative, then deduplicated in first-seen order.\<close>

definition img_src :: "img \<Rightarrow> pystr option" where
  "img_src i = py_or (py_or (data_src i) (src i)) (data_lazy_src i)"

fun collect_photos :: "img list \<Rightarrow> pystr list" where
  "collect_photos [] = []"
| "collect_photos (i # imgs) =
     (case img_src i of
        None \<Rightarrow> collect_photos imgs
      | Some s \<Rightarrow>
          if s \<noteq> [] \<and> (startswith s (ascii ''http://'') \<or> startswith s (ascii ''https://'')
                        \<or> startswith s (ascii ''/''))
          then (if startswith s (ascii ''/'') then ascii ''https://kolesa.kz'' @ s else s)
               # collect_photos imgs
          else collect_photos imgs)"

fun dedupe :: "pystr list \<Rightarrow> pystr list \<Rightarrow> pystr list \<Rightarrow> pystr list" where
  "dedupe seen unique_photos [] = unique_photos"
| "dedupe seen unique_photos (photo # rest) =
     (if photo \<notin> set seen
      then dedupe (photo # seen) (unique_photos @ [photo]) rest
      else dedupe seen unique_photos rest)"

text \<open>Make, model, trim and year from the title.\<close>

definition find_trim :: "pylib \<Rightarrow> pystr list \<Rightarrow> pystr option" where
  "find_trim L parts =
     List.find (\<lambda>part. str_lower L part \<notin> set skip_words \<and> re_match L YEAR_PREFIX_RE part = None)
       (drop 2 parts)"

definition parse_title ::
  "pylib \<Rightarrow> pystr option
   \<Rightarrow> py_error + (pystr option \<times> pystr option \<times> pystr option \<times> int option)" where
  "parse_title L title_text =
     (case py_or title_text None of
        None \<Rightarrow> Inr (None, None, None, None)
      | Some t \<Rightarrow>
          (let parts = split_ws t;
               make = (if length parts \<ge> 2 then Some (parts ! 0) else None);
               model = (if length parts \<ge> 2 then Some (parts ! 1) else None);
               trim = (if length parts \<ge> 3 then find_trim L parts else None)
           in then_do
                (case re_search L YEAR_RE False t of
                   None \<Rightarrow> Inr None
                 | Some y \<Rightarrow>
                     try_except (then_do (py_int L (group1 y)) (\<lambda>n. Inr (Some n)))
                       [ValueError, AttributeError] None)
                (\<lambda>car_year. Inr (make, model, trim, car_year))))"

definition parse_listing :: "pylib \<Rightarrow> pystr \<Rightarrow> pystr \<Rightarrow> int \<Rightarrow> py_error + listing" where
  "parse_listing L html page_url lid =
     then_do (beautiful_soup L html) (\<lambda>soup.
      let text_lines = text_lines_of soup;
          text = join [10] text_lines;
          title = (case doc_h1 soup of None \<Rightarrow> None | Some h \<Rightarrow> clean (Some h))
      in then_do (parse_price L text) (\<lambda>price_kzt.
         then_do (find_value_after text_lines label_city) (\<lambda>city.
         then_do (or_else (find_value_after text_lines label_region)
                    (find_value_after text_lines label_oblast)) (\<lambda>region.
         then_do (find_value_after text_lines label_generation) (\<lambda>generation.
         then_do (find_value_after text_lines label_body) (\<lambda>body_type.
         then_do (find_value_after text_lines label_transmission) (\<lambda>transmission.
         then_do (find_value_after text_lines label_drivetrain) (\<lambda>drivetrain.
         then_do (find_value_after text_lines label_steering) (\<lambda>steering.
         then_do (find_value_after text_lines label_color) (\<lambda>color.
         then_do (find_value_after text_lines label_customs) (\<lambda>customs.
         then_do (parse_mileage L text_lines text) (\<lambda>mileage_km.
         then_do (find_value_after text_lines label_engine) (\<lambda>engine_raw.
         then_do (parse_engine L engine_raw) (\<lambda>(engine_volume_l, engine_type).
         then_do (parse_seller text_lines) (\<lambda>seller_name.
         then_do (parse_options L text_lines) (\<lambda>(options_text, options_list).
         then_do (parse_title L title) (\<lambda>(make, model, trim, car_year).
           let photos = dedupe [] [] (collect_photos (doc_imgs soup))
           in Inr \<lparr>listing_id = lid, url = page_url, title = title,
                    price_kzt = price_kzt, city = city, region = region,
                    make' = make, model = model, generation = generation, trim = trim,
                    car_year = car_year, mileage_km = mileage_km, body_type = body_type,
                    engine_volume_l = engine_volume_l, engine_type = engine_type,
                    transmission = transmission, drivetrain = drivetrain,
                    steering = steering, color = color,
                    customs_cleared = parse_customs customs,
                    seller_name = seller_name,
                    seller_type = (if py_or seller_name None \<noteq> None then ascii ''dealer''
                                   else ascii ''private''),
                    options_text = options_text, options_list = options_list,
                    photos = photos, photo_count = length photos\<rparr>)))))))))))))))))"

text \<open>
  In the words of the specification: the line that follows the (first) line equal to a
  label, when there is one.
\<close>

fun line_after :: "pystr list \<Rightarrow> pystr \<Rightarrow> pystr option" where
  "line_after [] label = None"
| "line_after [x] label = None"
| "line_after (x # y # ys) label = (if x = label then Some y else line_after (y # ys) label)"

text \<open>
  An instance of the libraries for running the model on pages of plain text: the document
  of a page has the page as its text and no element, no regular expression matches and no
  number parses.
\<close>

definition text_lib :: pylib where
  "text_lib =
     \<lparr>unicode_lower = (\<lambda>s i. [s ! i]), str_isupper = (\<lambda>s. False),
      re_search = (\<lambda>p f s. None), re_match = (\<lambda>p s. None),
      int_of_str = (\<lambda>s. None), float_of_str = (\<lambda>s. None),
      lxml_document = (\<lambda>html. Inr \<lparr>doc_text = html, doc_h1 = None, doc_imgs = []\<rparr>)\<rparr>"

text \<open>A page of plain text: the city, then the customs label followed by the word for
  yes, with some stray whitespace.\<close>

definition customs_page :: pystr where
  "customs_page =
     label_city @ [10] @ ascii '' Almaty '' @ [10, 10] @ label_customs @ [10, 32] @ word_yes
     @ [10]"


section \<open>The blocking detector: \<open>detect_blocking\<close> (utils.py)\<close>

definition blocking_keywords :: "pystr list" where
  "blocking_keywords =
     [ascii ''captcha'', ascii ''cloudflare'', ascii ''challenge'', ascii ''verify'']"

definition blocking_patterns :: "(regex \<times> pystr) list" where
  "blocking_patterns =
     [(Pattern (ascii ''cloudflare.*ray.*id''), ascii ''Cloudflare protection page''),
      (Pattern (ascii ''checking.*browser.*before.*accessing''), ascii ''Cloudflare challenge''),
      (Pattern (ascii ''please.*complete.*security.*check''), ascii ''Security check required''),
      (Pattern (ascii ''unusual.*traffic.*detected''), ascii ''Unusual traffic detected''),
      (Pattern (ascii ''access.*denied.*robot''), ascii ''Access denied - robot''),
      (Pattern (ascii ''verify.*you.*are.*human''), ascii ''Human verification required''),
      (Pattern (ascii ''captcha.*challenge''), ascii ''CAPTCHA challenge page'')]"

definition title_pattern :: regex where
  "title_pattern = Pattern (ascii ''<title[^>]*>([^<]+)</title>'')"

definition title_keywords :: "pystr list" where
  "title_keywords =
     [ascii ''captcha'', ascii ''challenge'', ascii ''verify'', ascii ''blocked'',
      ascii ''access denied'']"

text \<open>
  The four checks, in the order of the source; the first that fires returns. The patterns
  are searched in the lower-cased page with \<open>re.IGNORECASE\<close>, the title without a flag.
  The logging call has no part in the result.
\<close>

definition detect_blocking :: "pylib \<Rightarrow> pystr \<Rightarrow> pystr \<Rightarrow> bool \<times> pystr option" where
  "detect_blocking L html page_url =
     (let html_lower = str_lower L html
      in if length html < 5000
            \<and> list_ex (\<lambda>keyword. py_in keyword html_lower) blocking_keywords
         then (True, Some (ascii ''Suspiciously short response with blocking keywords''))
         else
           (case List.find (\<lambda>(pattern, reason). re_search L pattern True html_lower \<noteq> None)
                   blocking_patterns of
              Some (pattern, reason) \<Rightarrow> (True, Some reason)
            | None \<Rightarrow>
                (case (case re_search L title_pattern False html_lower of
                         None \<Rightarrow> None
                       | Some title_match \<Rightarrow>
                           (let title_text = group1 title_match
                            in if list_ex (\<lambda>keyword. py_in keyword title_text) title_keywords
                               then Some (ascii ''Blocking page title: '' @ take 50 title_text)
                               else None)) of
                   Some reason \<Rightarrow> (True, Some reason)
                 | None \<Rightarrow>
                     if py_in (ascii ''cf-ray'') html_lower \<and> length html < 20000
                        \<and> (py_in (ascii ''challenge'') html_lower
                             \<or> py_in (ascii ''checking'') html_lower)
                     then (True, Some (ascii ''Cloudflare challenge page''))
                     else (False, None))))"

text \<open>The two fixtures of the specification: a short page with the word, and a long page
  of ordinary text.\<close>

definition captcha_page :: pystr where
  "captcha_page = ascii ''<html>captcha'' @ replicate 2987 32"

definition normal_page :: pystr where
  "normal_page = replicate 50000 97"

text \<open>A string that \<open>lower()\<close> leaves alone wherever it stands: ASCII without capitals.\<close>

definition plain_lower :: "pystr \<Rightarrow> bool" where
  "plain_lower k \<longleftrightarrow> (\<forall>c\<in>set k. c < 128 \<and> \<not> (65 \<le> c \<and> c \<le> 90))"

section \<open>Persistence: \<open>upsert_silver\<close> (silver_upsert.py)\<close>

text \<open>
  \<open>float(n)\<close> for an integer: the nearest double, ties to even, as the integer it
  denotes. Up to 53 bits the conversion is exact; beyond, the low bits are rounded away;
  a result past the largest double raises \<open>OverflowError\<close>.
\<close>

definition py_float_of_int :: "int \<Rightarrow> py_error + int" where
  "py_float_of_int n =
     (let m = \<bar>n\<bar>
      in if m < 2 ^ 53 then Inr n
         else
           (let s = nat (bitlen m - 53);
                q = m div 2 ^ s;
                r = m mod 2 ^ s;
                h = 2 ^ (s - 1);
                q' = (if r > h \<or> (r = h \<and> odd q) then q + 1 else q);
                v = q' * 2 ^ s
            in if v \<ge> 2 ^ 1024 then Inl OverflowError else Inr (sgn n * v)))"

text \<open>The rows of \<open>silver.listing_current\<close> (keyed by \<open>listing_id\<close>),
  \<open>silver.listing_snapshot_daily\<close> (keyed by \<open>listing_id\<close> and \<open>snapshot_date\<close>) and
  \<open>silver.listing_price_event\<close>.\<close>

record current_row =
  c_url :: pystr
  c_title :: "pystr option"
  c_price_kzt :: "int option"
  c_city :: "pystr option"
  c_region :: "pystr option"
  c_make :: "pystr option"
  c_model :: "pystr option"
  c_generation :: "pystr option"
  c_trim :: "pystr option"
  c_car_year :: "int option"
  c_mileage_km :: "int option"
  c_body_type :: "pystr option"
  c_engine_volume_l :: "pyfloat option"
  c_engine_type :: "pystr option"
  c_transmission :: "pystr option"
  c_drivetrain :: "pystr option"
  c_steering :: "pystr option"
  c_color :: "pystr option"
  c_customs_cleared :: "bool option"
  c_seller_name :: "pystr option"
  c_seller_type :: pystr
  c_seller_user_id :: "int option"
  c_seller_months_on_site :: "int option"
  c_seller_inventory_count :: "int option"
  c_seller_address :: "pystr option"
  c_options_text :: "pystr option"
  c_photos :: "pystr list"
  c_first_seen_at :: instant
  c_last_seen_at :: instant
  c_is_active :: bool
  c_payload_hash :: pystr

record daily_row =
  d_price_kzt :: "int option"
  d_is_active :: bool
  d_views :: "int option"
  d_photo_count :: "nat option"

record price_event =
  e_listing_id :: int
  e_event_ts :: instant
  e_old_price_kzt :: int
  e_new_price_kzt :: int

record silver =
  listing_current :: "int \<rightharpoonup> current_row"
  listing_snapshot_daily :: "int \<times> pydate \<rightharpoonup> daily_row"
  listing_price_event :: "price_event list"

text \<open>
  Modelled from the spec: the table definition of \<open>silver.listing_price_event\<close> is not
  among the sources; the specification says that duplicate events for the same (listing,
  timestamp) are suppressed, so \<open>INSERT ... ON CONFLICT DO NOTHING\<close> skips a row whose
  \<open>(listing_id, event_ts)\<close> is already there.
\<close>

definition insert_price_event :: "price_event \<Rightarrow> price_event list \<Rightarrow> price_event list" where
  "insert_price_event ev events =
     (if list_ex (\<lambda>e. e_listing_id e = e_listing_id ev \<and> e_event_ts e = e_event_ts ev) events
      then events
      else events @ [ev])"

text \<open>\<open>old_price is not None and new_price is not None and
  float(old_price) != float(new_price)\<close>: the two prices when the test holds.\<close>

definition price_changed :: "int option \<Rightarrow> int option \<Rightarrow> py_error + (int \<times> int) option" where
  "price_changed old_price new_price =
     (case old_price of
        None \<Rightarrow> Inr None
      | Some old \<Rightarrow>
          (case new_price of
             None \<Rightarrow> Inr None
           | Some new \<Rightarrow>
               then_do (py_float_of_int old) (\<lambda>fo.
               then_do (py_float_of_int new) (\<lambda>fn.
                 Inr (if fo \<noteq> fn then Some (old, new) else None)))))"

text \<open>\<open>INSERT INTO silver.listing_current ... ON CONFLICT (listing_id) DO UPDATE SET ...\<close>:
  the row to insert, and the columns the update sets.\<close>

definition current_insert :: "listing \<Rightarrow> instant \<Rightarrow> instant \<Rightarrow> pystr \<Rightarrow> current_row" where
  "current_insert l first_seen last_seen ph =
     \<lparr>c_url = url l, c_title = title l, c_price_kzt = price_kzt l, c_city = city l,
      c_region = region l, c_make = make' l, c_model = model l,
      c_generation = generation l, c_trim = trim l, c_car_year = car_year l,
      c_mileage_km = mileage_km l, c_body_type = body_type l,
      c_engine_volume_l = engine_volume_l l, c_engine_type = engine_type l,
      c_transmission = transmission l, c_drivetrain = drivetrain l,
      c_steering = steering l, c_color = color l, c_customs_cleared = customs_cleared l,
      c_seller_name = seller_name l, c_seller_type = seller_type l,
      c_seller_user_id = None, c_seller_months_on_site = None,
      c_seller_inventory_count = None, c_seller_address = None,
      c_options_text = options_text l, c_photos = photos l,
      c_first_seen_at = first_seen, c_last_seen_at = last_seen, c_is_active = True,
      c_payload_hash = ph\<rparr>"

definition current_update :: "current_row \<Rightarrow> current_row \<Rightarrow> current_row" where
  "current_update excluded r =
     r\<lparr>c_url := c_url excluded, c_title := c_title excluded,
       c_price_kzt := c_price_kzt excluded, c_city := c_city excluded,
       c_region := c_region excluded, c_make := c_make excluded,
       c_model := c_model excluded, c_generation := c_generation excluded,
       c_trim := c_trim excluded, c_car_year := c_car_year excluded,
       c_mileage_km := c_mileage_km excluded, c_body_type := c_body_type excluded,
       c_engine_volume_l := c_engine_volume_l excluded,
       c_engine_type := c_engine_type excluded,
       c_transmission := c_transmission excluded, c_drivetrain := c_drivetrain excluded,
       c_steering := c_steering excluded, c_color := c_color excluded,
       c_customs_cleared := c_customs_cleared excluded,
       c_seller_name := c_seller_name excluded, c_seller_type := c_seller_type excluded,
       c_options_text := c_options_text excluded, c_photos := c_photos excluded,
       c_last_seen_at := c_last_seen_at excluded, c_is_active := True,
       c_payload_hash := c_payload_hash excluded\<rparr>"

definition upsert_current ::
  "int \<Rightarrow> current_row \<Rightarrow> (int \<rightharpoonup> current_row) \<Rightarrow> (int \<rightharpoonup> current_row)" where
  "upsert_current lid excluded t =
     (case t lid of
        None \<Rightarrow> t(lid \<mapsto> excluded)
      | Some r \<Rightarrow> t(lid \<mapsto> current_update excluded r))"

text \<open>\<open>INSERT INTO silver.listing_snapshot_daily ... VALUES (%s, %s, %s, TRUE, NULL, %s)
  ON CONFLICT (listing_id, snapshot_date) DO UPDATE SET price_kzt, is_active, photo_count\<close>.\<close>

definition upsert_daily ::
  "int \<times> pydate \<Rightarrow> int option \<Rightarrow> nat option
   \<Rightarrow> (int \<times> pydate \<rightharpoonup> daily_row) \<Rightarrow> (int \<times> pydate \<rightharpoonup> daily_row)" where
  "upsert_daily key price count t =
     (case t key of
        None \<Rightarrow> t(key \<mapsto> \<lparr>d_price_kzt = price, d_is_active = True, d_views = None,
                            d_photo_count = count\<rparr>)
      | Some r \<Rightarrow> t(key \<mapsto> r\<lparr>d_price_kzt := price, d_is_active := True,
                              d_photo_count := count\<rparr>))"

text \<open>
  \<open>upsert_silver(listing, fetched_at)\<close>. The dict always has its \<open>listing_id\<close> here, so
  the \<open>KeyError\<close> branch has no counterpart; a naive \<open>fetched_at\<close> raises \<open>ValueError\<close>.
  \<open>digest\<close> is \<open>payload_hash\<close> (SHA-256 of the JSON text of the dict, from hashlib and
  json) and \<open>today\<close> is what \<open>date.today()\<close> returns when the snapshot is written. The
  three statements run in one transaction: an exception leaves the tables as they were.
\<close>

definition upsert_silver ::
  "(listing \<Rightarrow> pystr) \<Rightarrow> pydate \<Rightarrow> listing \<Rightarrow> pydatetime \<Rightarrow> silver \<Rightarrow> py_error + silver" where
  "upsert_silver digest today l fetched_at db =
     (if tzinfo fetched_at = None then Inl ValueError
      else
        (let ph = digest l;
             row = listing_current db (listing_id l);
             old_price = (case row of None \<Rightarrow> None | Some r \<Rightarrow> c_price_kzt r);
             first_seen = (case row of None \<Rightarrow> instant_of fetched_at
                           | Some r \<Rightarrow> c_first_seen_at r);
             new_price = price_kzt l
         in then_do (price_changed old_price new_price) (\<lambda>changed.
              Inr \<lparr>listing_current =
                     upsert_current (listing_id l)
                       (current_insert l first_seen (instant_of fetched_at) ph)
                       (listing_current db),
                   listing_snapshot_daily =
                     upsert_daily (listing_id l, today) (price_kzt l) (Some (photo_count l))
                       (listing_snapshot_daily db),
                   listing_price_event =
                     (case changed of
                        Some (old, new) \<Rightarrow>
                          insert_price_event
                            \<lparr>e_listing_id = listing_id l,
                             e_event_ts = instant_of fetched_at,
                             e_old_price_kzt = old, e_new_price_kzt = new\<rparr>
                            (listing_price_event db)
                      | None \<Rightarrow> listing_price_event db)\<rparr>)))"

text \<open>\<open>mark_silver_inactive\<close> (fetch_listing.py); \<open>db_today\<close> is \<open>CURRENT_DATE\<close>.\<close>

definition mark_silver_inactive :: "pydate \<Rightarrow> int \<Rightarrow> silver \<Rightarrow> silver" where
  "mark_silver_inactive db_today lid db =
     db\<lparr>listing_current :=
          (case listing_current db lid of
             None \<Rightarrow> listing_current db
           | Some r \<Rightarrow> (listing_current db)(lid \<mapsto> r\<lparr>c_is_active := False\<rparr>)),
        listing_snapshot_daily :=
          (case listing_snapshot_daily db (lid, db_today) of
             None \<Rightarrow> listing_snapshot_daily db
           | Some r \<Rightarrow> (listing_snapshot_daily db)((lid, db_today) \<mapsto> r\<lparr>d_is_active := False\<rparr>))\<rparr>"

text \<open>A price that \<open>float\<close> accepts: absent, or an integer it converts without
  \<open>OverflowError\<close>.\<close>

definition float_ok :: "int option \<Rightarrow> bool" where
  "float_ok p =
     (case p of
        None \<Rightarrow> True
      | Some n \<Rightarrow> (case py_float_of_int n of Inl e \<Rightarrow> False | Inr v \<Rightarrow> True))"

definition stored_price :: "silver \<Rightarrow> int \<Rightarrow> int option" where
  "stored_price db lid = (case listing_current db lid of None \<Rightarrow> None | Some r \<Rightarrow> c_price_kzt r)"

definition empty_silver :: silver where
  "empty_silver =
     \<lparr>listing_current = Map.empty, listing_snapshot_daily = Map.empty,
      listing_price_event = []\<rparr>"

text \<open>The record of the integration test, with the prices of the specification's
  scenario.\<close>

definition camry :: "int \<Rightarrow> listing" where
  "camry price =
     \<lparr>listing_id = 888888888, url = ascii ''https://kolesa.kz/a/show/888888888'',
      title = Some (ascii ''Test Car 2020''), price_kzt = Some price,
      city = Some [1040, 1083, 1084, 1072, 1090, 1099],
      region = Some [1040, 1083, 1084, 1072, 1090, 1099],
      make' = Some (ascii ''Toyota''), model = Some (ascii ''Camry''), generation = None,
      trim = None, car_year = Some 2020, mileage_km = Some 50000,
      body_type = Some [1057, 1077, 1076, 1072, 1085], engine_volume_l = None,
      engine_type = Some [1073, 1077, 1085, 1079, 1080, 1085],
      transmission = Some [1040, 1074, 1090, 1086, 1084, 1072, 1090],
      drivetrain = Some [1055, 1077, 1088, 1077, 1076, 1085, 1080, 1081],
      steering = Some [1051, 1077, 1074, 1099, 1081],
      color = Some [1041, 1077, 1083, 1099, 1081], customs_cleared = Some True,
      seller_name = None, seller_type = ascii ''private'',
      options_text = Some (ascii ''Test options''), options_list = [ascii ''Test option 1''],
      photos = [ascii ''https://example.com/photo1.jpg''], photo_count = 1\<rparr>"

text \<open>The tables after the first upsert of the scenario, at time 1000 on day 0 (with a
  digest that is of no interest here), and the same with a view count recorded.\<close>

definition no_digest :: "listing \<Rightarrow> pystr" where
  "no_digest l = []"

definition first_upsert :: silver where
  "first_upsert =
     \<lparr>listing_current = [888888888 \<mapsto> current_insert (camry 12000000) 1000 1000 []],
      listing_snapshot_daily =
        [(888888888, 0) \<mapsto> \<lparr>d_price_kzt = Some 12000000, d_is_active = True,
                              d_views = None, d_photo_count = Some 1\<rparr>],
      listing_price_event = []\<rparr>"

definition first_upsert_viewed :: silver where
  "first_upsert_viewed =
     first_upsert\<lparr>listing_snapshot_daily :=
        [(888888888, 0) \<mapsto> \<lparr>d_price_kzt = Some 12000000, d_is_active = True,
                              d_views = Some 7, d_photo_count = Some 1\<rparr>]\<rparr>"

section \<open>Discovery: the insert into the queue (discover_listings.py)\<close>

text \<open>\<open>str(n)\<close> for an integer, as it stands in an f-string.\<close>

function str_of_nat :: "nat \<Rightarrow> pystr" where
  "str_of_nat n = (if n < 10 then [48 + n] else str_of_nat (n div 10) @ [48 + n mod 10])"
  by pat_completeness auto
termination
  by (relation "measure id") auto

declare str_of_nat.simps [simp del]

definition str_of_int :: "int \<Rightarrow> pystr" where
  "str_of_int i = (if i < 0 then 45 # str_of_nat (nat (- i)) else str_of_nat (nat i))"

text \<open>
  Modelled from the spec: the table definition of \<open>ctl.scrape_queue\<close> is not among the
  sources. The \<open>INSERT\<close> gives \<open>listing_id\<close> and \<open>url\<close> only; by the specification a row
  is created NEW, the first claim sees \<open>attempts = 0\<close>, and a null \<open>next_retry_at\<close> means
  immediately eligible. These are the column defaults taken here.
\<close>

definition new_queue_row :: "int \<Rightarrow> pystr \<Rightarrow> queue_row" where
  "new_queue_row lid lurl =
     \<lparr>q_listing_id = lid, q_url = lurl, q_state = NEW, q_attempts = 0,
      q_last_attempt_at = None, q_next_retry_at = None, q_last_http_status = None,
      q_last_error = None\<rparr>"

text \<open>
  \<open>INSERT INTO ctl.scrape_queue(listing_id, url) VALUES (%s, %s)
  ON CONFLICT (listing_id) DO NOTHING\<close>, with its \<open>rowcount\<close>: the operation the
  specification calls enqueue.
\<close>

definition enqueue :: "int \<Rightarrow> pystr \<Rightarrow> queue_row list \<Rightarrow> queue_row list \<times> nat" where
  "enqueue lid lurl queue =
     (if list_ex (\<lambda>r. q_listing_id r = lid) queue then (queue, 0)
      else (queue @ [new_queue_row lid lurl], 1))"

text \<open>The loop \<open>for listing_id in all_ids\<close>, with \<open>inserted += cur.rowcount\<close>. A Python set
  is iterated in an order of its own: the loop is given the ids in that order.\<close>

fun insert_ids :: "pystr \<Rightarrow> int list \<Rightarrow> queue_row list \<Rightarrow> nat \<Rightarrow> queue_row list \<times> nat" where
  "insert_ids base_url [] queue inserted = (queue, inserted)"
| "insert_ids base_url (lid # ids) queue inserted =
     (let lurl = base_url @ ascii ''/a/show/'' @ str_of_int lid;
          (queue', rowcount) = enqueue lid lurl queue
      in insert_ids base_url ids queue' (inserted + rowcount))"

text \<open>
  What \<open>discover_ids_from_page\<close> did on one page: it returned a set of ids, raised
  \<open>BlockingDetectedError\<close>, or raised another exception. The page loop adds the ids to
  \<open>all_ids\<close>, stops at a page without ids or at a block, and goes on after a failure.
\<close>

datatype page_result = Ids "int list" | Blocked | Failed

fun collect_ids :: "page_result list \<Rightarrow> int list \<Rightarrow> int list" where
  "collect_ids [] all_ids = all_ids"
| "collect_ids (Ids ids # pages) all_ids =
     (let all_ids = all_ids @ filter (\<lambda>i. i \<notin> set all_ids) (remdups ids)
      in if ids = [] then all_ids else collect_ids pages all_ids)"
| "collect_ids (Blocked # pages) all_ids = all_ids"
| "collect_ids (Failed # pages) all_ids = collect_ids pages all_ids"

definition discover_pages_to_db ::
  "pystr \<Rightarrow> page_result list \<Rightarrow> queue_row list \<Rightarrow> queue_row list \<times> nat" where
  "discover_pages_to_db base_url pages queue =
     (let all_ids = collect_ids pages []
      in if all_ids \<noteq> [] then insert_ids base_url all_ids queue 0 else (queue, 0))"

section \<open>Claiming a batch (fetch_listing.py, db.py)\<close>

text \<open>
  The row locks of PostgreSQL: \<open>locks lid = Some s\<close> when session \<open>s\<close> holds the lock of
  the queue row of \<open>lid\<close>. \<open>SELECT ... FOR UPDATE SKIP LOCKED\<close> passes over the rows that
  another session has locked and locks the rows it returns; the locks of a session are
  released when its transaction ends.
\<close>

type_synonym row_locks = "int \<rightharpoonup> nat"

definition eligible :: "instant \<Rightarrow> queue_row \<Rightarrow> bool" where
  "eligible now r \<longleftrightarrow>
     (q_state r = NEW \<or> q_state r = RETRY)
     \<and> (case q_next_retry_at r of None \<Rightarrow> True | Some t \<Rightarrow> t \<le> now)"

definition free_for :: "nat \<Rightarrow> row_locks \<Rightarrow> queue_row \<Rightarrow> bool" where
  "free_for session locks r \<longleftrightarrow>
     (case locks (q_listing_id r) of None \<Rightarrow> True | Some s \<Rightarrow> s = session)"

definition lock_rows :: "nat \<Rightarrow> queue_row list \<Rightarrow> row_locks \<Rightarrow> row_locks" where
  "lock_rows session rows locks =
     (\<lambda>lid. if list_ex (\<lambda>r. q_listing_id r = lid) rows then Some session else locks lid)"

definition select_for_update_skip_locked ::
  "nat \<Rightarrow> instant \<Rightarrow> nat \<Rightarrow> queue_row list \<Rightarrow> row_locks
   \<Rightarrow> (int \<times> pystr \<times> nat) list \<times> row_locks" where
  "select_for_update_skip_locked session now batch_size queue locks =
     (let rows = take batch_size (filter (\<lambda>r. eligible now r \<and> free_for session locks r) queue)
      in (map (\<lambda>r. (q_listing_id r, q_url r, q_attempts r)) rows,
          lock_rows session rows locks))"

definition commit :: "nat \<Rightarrow> row_locks \<Rightarrow> row_locks" where
  "commit session locks = (\<lambda>lid. if locks lid = Some session then None else locks lid)"

text \<open>
  The claim of \<open>fetch_and_process_batch\<close>: the \<open>SELECT\<close> runs inside
  \<open>with wh_conn() as conn\<close>, and \<open>wh_conn\<close> commits when the block is left, which is
  right after \<open>fetchall\<close> and before any row is processed.
\<close>

definition claim_batch ::
  "nat \<Rightarrow> instant \<Rightarrow> nat \<Rightarrow> queue_row list \<Rightarrow> row_locks
   \<Rightarrow> (int \<times> pystr \<times> nat) list \<times> row_locks" where
  "claim_batch session now batch_size queue locks =
     (let (items, locks) = select_for_update_skip_locked session now batch_size queue locks
      in (items, commit session locks))"

text \<open>The attempt bookkeeping at the head of the loop body:
  \<open>SET last_attempt_at = NOW(), attempts = attempts + 1\<close>.\<close>

definition mark_attempt :: "instant \<Rightarrow> int \<Rightarrow> queue_row list \<Rightarrow> queue_row list" where
  "mark_attempt now lid queue =
     sql_update (\<lambda>r. q_listing_id r = lid)
       (\<lambda>r. r\<lparr>q_last_attempt_at := Some now, q_attempts := q_attempts r + 1\<rparr>)
       queue"

text \<open>A row that has been through three attempts and waits for its retry.\<close>

definition retried_row :: queue_row where
  "retried_row = \<lparr>q_listing_id = 101, q_url = ascii ''https://kolesa.kz/a/show/101'',
     q_state = RETRY, q_attempts = 3, q_last_attempt_at = Some 5, q_next_retry_at = Some 9,
     q_last_http_status = Some 0, q_last_error = Some (ascii ''timeout'')\<rparr>"

section \<open>Fetching: \<open>fetch_single_listing\<close> and \<open>fetch_and_process_batch\<close>\<close>

text \<open>
  What the world outside does for one queue entry. \<open>w_nav\<close> is the outcome of the
  navigation with its fallbacks: an exception with its message, or the HTTP status and
  the HTML of the page. The other fields say whether a storage call raises (the attempt
  update, the archive write to the object store and the bronze table, the silver write,
  the state update) and what the clocks show (\<open>NOW()\<close> of the attempt update,
  \<open>datetime.now\<close> at the fetch, \<open>date.today()\<close>, \<open>CURRENT_DATE\<close>, \<open>datetime.now\<close> in
  \<open>schedule_retry\<close>). Sleeping, logging and the statistics are left out.
\<close>

datatype nav_result = Nav_Error pystr | Page int pystr

record fetch_world =
  w_mark_attempt_error :: "pystr option"
  w_nav :: nav_result
  w_archive_error :: "pystr option"
  w_silver_error :: "pystr option"
  w_update_state_error :: "pystr option"
  w_now :: instant
  w_fetched_at :: instant
  w_today :: pydate
  w_current_date :: pydate
  w_retry_now :: instant

record warehouse =
  wh_queue :: "queue_row list"
  wh_silver :: silver
  wh_locks :: row_locks

definition raise_if :: "pystr option \<Rightarrow> py_error + unit" where
  "raise_if failure = (case failure of None \<Rightarrow> Inr () | Some msg \<Rightarrow> Inl (Exception msg))"

text \<open>\<open>str(e)\<close> of a caught exception.\<close>

fun str_of_error :: "py_error \<Rightarrow> pystr" where
  "str_of_error (Exception msg) = msg"
| "str_of_error (BlockingDetectedError msg) = msg"
| "str_of_error ValueError = ascii ''ValueError''"
| "str_of_error IndexError = ascii ''IndexError''"
| "str_of_error AttributeError = ascii ''AttributeError''"
| "str_of_error KeyError = ascii ''KeyError''"
| "str_of_error OverflowError = ascii ''OverflowError''"
| "str_of_error UnicodeEncodeError = ascii ''UnicodeEncodeError''"

text \<open>
  The body of the \<open>try\<close> of \<open>fetch_single_listing\<close>, from the page on: the result and the
  silver tables, or the exception that leaves the body. No table is written before the
  last storage call of a path, so an exception leaves the tables as they were.
\<close>

definition fetch_body ::
  "pylib \<Rightarrow> (listing \<Rightarrow> pystr) \<Rightarrow> fetch_world \<Rightarrow> int \<Rightarrow> pystr \<Rightarrow> bool \<Rightarrow> bool \<Rightarrow> silver
   \<Rightarrow> py_error + (listing option \<times> silver)" where
  "fetch_body L digest w lid page_url use_db use_s3 db =
     then_do
       (case w_nav w of
          Nav_Error msg \<Rightarrow> Inl (Exception msg)
        | Page status html \<Rightarrow> Inr (status, html))
       (\<lambda>(status, html).
          (case detect_blocking L html page_url of
             (True, reason) \<Rightarrow>
               Inl (BlockingDetectedError
                      (ascii ''Blocking detected: ''
                       @ (case reason of None \<Rightarrow> ascii ''None'' | Some why \<Rightarrow> why)))
           | (False, reason) \<Rightarrow>
               (let fetched_at = now_utc (w_fetched_at w)
                in then_do (if use_s3 then raise_if (w_archive_error w) else Inr ()) (\<lambda>_.
                     if status = 404
                     then (if use_db
                           then then_do (raise_if (w_silver_error w)) (\<lambda>_.
                                  Inr (None, mark_silver_inactive (w_current_date w) lid db))
                           else Inr (None, db))
                     else if status \<ge> 400
                     then Inl (Exception
                                 (ascii ''HTTP '' @ str_of_int status @ ascii '' for ''
                                  @ page_url))
                     else then_do (parse_listing L html page_url lid) (\<lambda>parsed.
                            if use_db
                            then then_do (raise_if (w_silver_error w)) (\<lambda>_.
                                 then_do (upsert_silver digest (w_today w) parsed fetched_at db)
                                   (\<lambda>db'. Inr (Some parsed, db')))
                            else Inr (Some parsed, db))))))"

text \<open>
  \<open>fetch_single_listing\<close>: \<open>except BlockingDetectedError: raise\<close> lets the blocking signal
  through, \<open>except Exception: ... return None\<close> turns every other exception into the
  result \<open>None\<close>.
\<close>

definition fetch_single_listing ::
  "pylib \<Rightarrow> (listing \<Rightarrow> pystr) \<Rightarrow> fetch_world \<Rightarrow> int \<Rightarrow> pystr \<Rightarrow> bool \<Rightarrow> bool \<Rightarrow> silver
   \<Rightarrow> (py_error + listing option) \<times> silver" where
  "fetch_single_listing L digest w lid page_url use_db use_s3 db =
     (case fetch_body L digest w lid page_url use_db use_s3 db of
        Inr (parsed, db') \<Rightarrow> (Inr parsed, db')
      | Inl (BlockingDetectedError msg) \<Rightarrow> (Inl (BlockingDetectedError msg), db)
      | Inl e \<Rightarrow> (Inr None, db))"

text \<open>
  One turn of the loop of \<open>fetch_and_process_batch\<close> for the claimed entry
  \<open>(listing_id, url, attempts)\<close>: the warehouse after it, the increment of
  \<open>processed_count\<close>, and whether the loop breaks. A parsed dict is never empty, so
  \<open>if parsed\<close> asks whether the result is \<open>None\<close>.
\<close>

definition process_item ::
  "pylib \<Rightarrow> (listing \<Rightarrow> pystr) \<Rightarrow> fetch_world \<Rightarrow> int \<times> pystr \<times> nat \<Rightarrow> warehouse
   \<Rightarrow> warehouse \<times> nat \<times> bool" where
  "process_item L digest w item wh =
     (case item of (lid, page_url, attempts) \<Rightarrow>
        (case w_mark_attempt_error w of
           Some msg \<Rightarrow>
             (wh\<lparr>wh_queue :=
                   schedule_retry (w_retry_now w) lid (attempts + 1) 0 msg (wh_queue wh)\<rparr>,
              0, False)
         | None \<Rightarrow>
             (let wh1 = wh\<lparr>wh_queue := mark_attempt (w_now w) lid (wh_queue wh)\<rparr>
              in case fetch_single_listing L digest w lid page_url True True (wh_silver wh1) of
                   (Inl (BlockingDetectedError msg), db) \<Rightarrow>
                     (wh1\<lparr>wh_queue :=
                            schedule_retry (w_retry_now w) lid (attempts + 1) 0
                              (ascii ''Blocking detected'') (wh_queue wh1)\<rparr>,
                      0, True)
                 | (Inl e, db) \<Rightarrow>
                     (wh1\<lparr>wh_queue :=
                            schedule_retry (w_retry_now w) lid (attempts + 1) 0
                              (str_of_error e) (wh_queue wh1)\<rparr>,
                      0, False)
                 | (Inr parsed, db) \<Rightarrow>
                     (let wh2 = wh1\<lparr>wh_silver := db\<rparr>
                      in case w_update_state_error w of
                           Some msg \<Rightarrow>
                             (wh2\<lparr>wh_queue :=
                                    schedule_retry (w_retry_now w) lid (attempts + 1) 0 msg
                                      (wh_queue wh2)\<rparr>,
                              0, False)
                         | None \<Rightarrow>
                             (case parsed of
                                Some p \<Rightarrow>
                                  (wh2\<lparr>wh_queue :=
                                         update_state lid FETCHED 200 None (wh_queue wh2)\<rparr>,
                                   1, False)
                              | None \<Rightarrow>
                                  (wh2\<lparr>wh_queue :=
                                         update_state lid INACTIVE 404 None (wh_queue wh2)\<rparr>,
                                   0, False))))))"

fun process_items ::
  "pylib \<Rightarrow> (listing \<Rightarrow> pystr) \<Rightarrow> (int \<Rightarrow> fetch_world) \<Rightarrow> (int \<times> pystr \<times> nat) list
   \<Rightarrow> warehouse \<Rightarrow> nat \<Rightarrow> warehouse \<times> nat" where
  "process_items L digest env [] wh processed_count = (wh, processed_count)"
| "process_items L digest env (item # items) wh processed_count =
     (case process_item L digest (env (fst item)) item wh of
        (wh', n, stop) \<Rightarrow>
          if stop then (wh', processed_count + n)
          else process_items L digest env items wh' (processed_count + n))"

definition fetch_and_process_batch ::
  "pylib \<Rightarrow> (listing \<Rightarrow> pystr) \<Rightarrow> (int \<Rightarrow> fetch_world) \<Rightarrow> nat \<Rightarrow> instant \<Rightarrow> nat \<Rightarrow> warehouse
   \<Rightarrow> warehouse \<times> nat" where
  "fetch_and_process_batch L digest env session now batch_size wh =
     (case claim_batch session now batch_size (wh_queue wh) (wh_locks wh) of
        (items, locks) \<Rightarrow>
          if items = [] then (wh\<lparr>wh_locks := locks\<rparr>, 0)
          else process_items L digest env items (wh\<lparr>wh_locks := locks\<rparr>) 0)"

text \<open>A queue with one new entry, a server that answers 500 with a short error page, and
  a storage layer that cannot record the attempt.\<close>

definition one_new :: warehouse where
  "one_new =
     \<lparr>wh_queue = [new_queue_row 101 (ascii ''https://kolesa.kz/a/show/101'')],
      wh_silver = empty_silver, wh_locks = Map.empty\<rparr>"

definition server_error :: fetch_world where
  "server_error =
     \<lparr>w_mark_attempt_error = None, w_nav = Page 500 (ascii ''internal server error''),
      w_archive_error = None, w_silver_error = None, w_update_state_error = None,
      w_now = 100, w_fetched_at = 110, w_today = 0, w_current_date = 0, w_retry_now = 120\<rparr>"

definition storage_down :: fetch_world where
  "storage_down = server_error\<lparr>w_mark_attempt_error := Some (ascii ''connection refused'')\<rparr>"

section \<open>Retry backoff\<close>

lemma backoff_minutes_mono: "a1 \<le> a2 \<Longrightarrow> backoff_minutes a1 \<le> backoff_minutes a2"
proof -
  assume "a1 \<le> a2"
  then have "(2::nat) ^ a1 \<le> 2 ^ a2"
    by (simp add: power_increasing)
  then show ?thesis
    unfolding backoff_minutes_def by (simp add: min_le_iff_disj)
qed

lemma backoff_minutes_cap: "timedelta_minutes (backoff_minutes a) \<le> one_day"
proof -
  have "backoff_minutes a \<le> 1440"
    unfolding backoff_minutes_def by simp
  then show ?thesis
    unfolding timedelta_minutes_def one_day_def by simp
qed

lemma timedelta_minutes_min:
  "timedelta_minutes (min x y) = min (timedelta_minutes x) (timedelta_minutes y)"
  unfolding timedelta_minutes_def min_def by simp

lemma backoff_as_duration:
  "timedelta_minutes (backoff_minutes a) = min (timedelta_minutes (2 ^ a)) one_day"
proof -
  have "one_day = timedelta_minutes (60 * 24)"
    unfolding timedelta_minutes_def one_day_def by simp
  then show ?thesis
    unfolding backoff_minutes_def by (simp only: timedelta_minutes_min)
qed

text \<open>
  C5. The backoff is \<open>min(2^a minutes, 1 day)\<close>; it is monotone in the attempt count and
  never exceeds one day; and \<open>schedule_retry\<close> leaves the table's shape alone, puts every
  row of the listing into state RETRY with \<open>next_retry_at\<close> the current time plus the
  backoff of the attempts it was given, and does not touch the rows of other listings.
\<close>

theorem schedule_retry_backoff:
  "timedelta_minutes (backoff_minutes a) = min (timedelta_minutes (2 ^ a)) one_day
   \<and> (a1 < a2 \<longrightarrow>
        backoff_minutes a1 \<le> backoff_minutes a2
        \<and> timedelta_minutes (backoff_minutes a2) \<le> one_day)
   \<and> length (schedule_retry now lid a st err queue) = length queue
   \<and> (\<forall>i < length queue.
        (q_listing_id (queue ! i) = lid \<longrightarrow>
           q_state (schedule_retry now lid a st err queue ! i) = RETRY
           \<and> q_next_retry_at (schedule_retry now lid a st err queue ! i)
               = Some (now + timedelta_minutes (backoff_minutes a))
           \<and> q_listing_id (schedule_retry now lid a st err queue ! i) = lid)
        \<and> (q_listing_id (queue ! i) \<noteq> lid \<longrightarrow>
             schedule_retry now lid a st err queue ! i = queue ! i))"
proof -
  have mono: "a1 < a2 \<longrightarrow> backoff_minutes a1 \<le> backoff_minutes a2"
    using backoff_minutes_mono [of a1 a2] by simp
  have rows: "\<forall>i < length queue.
        (q_listing_id (queue ! i) = lid \<longrightarrow>
           q_state (schedule_retry now lid a st err queue ! i) = RETRY
           \<and> q_next_retry_at (schedule_retry now lid a st err queue ! i)
               = Some (now + timedelta_minutes (backoff_minutes a))
           \<and> q_listing_id (schedule_retry now lid a st err queue ! i) = lid)
        \<and> (q_listing_id (queue ! i) \<noteq> lid \<longrightarrow>
             schedule_retry now lid a st err queue ! i = queue ! i)"
    by (simp add: schedule_retry_def sql_update_def Let_def)
  have len: "length (schedule_retry now lid a st err queue) = length queue"
    by (simp add: schedule_retry_def sql_update_def Let_def)
  from backoff_as_duration [of a] mono backoff_minutes_cap [of a2] len rows
  show ?thesis by blast
qed

theorem schedule_retry_backoff_witness:
  "(3::nat) < 12
   \<and> backoff_minutes 3 = 8 \<and> backoff_minutes 12 = 1440
   \<and> q_listing_id ([example_row] ! 0) = 101
   \<and> q_state (schedule_retry 1000 101 3 0 (ascii ''boom'') [example_row] ! 0) = RETRY
   \<and> q_next_retry_at (schedule_retry 1000 101 3 0 (ascii ''boom'') [example_row] ! 0)
       = Some 480001000"
  using schedule_retry_backoff [of 3 3 12 1000 101 0 "ascii ''boom''" "[example_row]"]
  by (simp add: backoff_minutes_def timedelta_minutes_def example_row_def)

section \<open>The extractor never raises\<close>

lemma list_index_error: "list_index ls l = Inl e \<Longrightarrow> e = ValueError \<and> l \<notin> set ls"
  by (induction ls arbitrary: e) (auto split: if_splits sum.splits)

lemma list_index_found:
  "list_index ls l = Inr i \<Longrightarrow> i < length ls \<and> ls ! i = l \<and> (\<forall>j<i. ls ! j \<noteq> l)"
proof (induction ls arbitrary: i)
  case Nil
  then show ?case by simp
next
  case (Cons x xs)
  show ?case
  proof (cases "x = l")
    case True
    with Cons.prems show ?thesis by simp
  next
    case False
    with Cons.prems obtain k where k: "list_index xs l = Inr k" "i = Suc k"
      by (auto split: sum.splits)
    from Cons.IH [OF k(1)] False k(2) show ?thesis
      by (auto simp: nth_Cons split: nat.splits)
  qed
qed

lemma line_after_index:
  "line_after ls l =
     (case list_index ls l of
        Inl e \<Rightarrow> None
      | Inr i \<Rightarrow> if i + 1 < length ls then Some (ls ! (i + 1)) else None)"
  by (induction ls l rule: line_after.induct) (auto split: sum.splits)

lemma line_after_absent: "l \<notin> set ls \<Longrightarrow> line_after ls l = None"
proof (cases "list_index ls l")
  case (Inl e)
  then show ?thesis by (simp add: line_after_index)
next
  case (Inr i)
  assume "l \<notin> set ls"
  with list_index_found [OF Inr] show ?thesis
    by (auto dest: nth_mem)
qed

lemma line_after_mem: "line_after ls l = Some v \<Longrightarrow> v \<in> set ls"
  by (induction ls l rule: line_after.induct) (auto split: if_splits)

lemma clean_None: "clean None = None"
  by (simp add: clean_def)

lemma find_value_after_eq: "find_value_after ls l = Inr (clean (line_after ls l))"
proof (cases "list_index ls l")
  case (Inl e)
  then have "e = ValueError"
    by (simp add: list_index_error)
  with Inl show ?thesis
    by (simp add: find_value_after_def line_after_index then_do_def try_except_def is_caught_def clean_None)
next
  case (Inr i)
  then show ?thesis
    by (simp add: find_value_after_def line_after_index then_do_def try_except_def is_caught_def clean_None
        py_get_def)
qed

lemma or_else_Inr: "or_else (Inr a) (Inr b) = Inr (py_or a b)"
  by (simp add: or_else_def then_do_def py_or_def split: option.splits)

lemma int_of_group_total: "\<exists>v. int_of_group L m = Inr v"
  by (simp add: int_of_group_def py_int_def then_do_def try_except_def is_caught_def split: option.splits)

lemma parse_price_total: "\<exists>v. parse_price L t = Inr v"
  by (simp add: parse_price_def int_of_group_total split: option.splits)


lemma parse_mileage_total: "\<exists>v. parse_mileage L ls t = Inr v"
proof -
  have "\<exists>v. (case re_search L MILEAGE_RE True t of
          None \<Rightarrow> Inr None | Some m \<Rightarrow> int_of_group L m) = Inr v"
    by (simp add: int_of_group_total split: option.splits)
  then obtain v where v: "(case re_search L MILEAGE_RE True t of
          None \<Rightarrow> Inr None | Some m \<Rightarrow> int_of_group L m) = Inr v" ..
  show ?thesis
    unfolding parse_mileage_def v
    by (simp add: then_do_def find_value_after_eq or_else_Inr py_int_def try_except_def is_caught_def
        split: option.splits)
qed


lemma parse_engine_total: "\<exists>v t. parse_engine L raw = Inr (v, t)"
  by (simp add: parse_engine_def py_float_def then_do_def try_except_def is_caught_def split: option.splits)


lemma parse_seller_eq:
  "parse_seller ls = Inr (clean (line_after ls label_verified_seller))"
proof (cases "label_verified_seller \<in> set ls")
  case True
  have "find_value_after ls label_verified_seller
          = Inr (clean (line_after ls label_verified_seller))"
    by (rule find_value_after_eq)
  with True show ?thesis
    by (simp add: parse_seller_def find_value_after_def)
next
  case False
  then show ?thesis
    by (simp add: parse_seller_def line_after_absent clean_None)
qed

lemma parse_options_total: "\<exists>t l. parse_options L ls = Inr (t, l)"
proof (cases "list_index ls label_options")
  case (Inl e)
  then have "e = ValueError"
    by (simp add: list_index_error)
  with Inl show ?thesis
    by (simp add: parse_options_def then_do_def try_except_def is_caught_def)
next
  case (Inr i)
  then show ?thesis
    by (simp add: parse_options_def then_do_def try_except_def is_caught_def Let_def)
qed


lemma parse_title_total: "\<exists>a b c d. parse_title L t = Inr (a, b, c, d)"
  by (simp add: parse_title_def py_int_def then_do_def try_except_def is_caught_def Let_def
      split: option.splits)


text \<open>Every step returns, so the whole function does, and the record is known field by
  field.\<close>

lemma parse_listing_no_document:
  "beautiful_soup L html = Inl e \<Longrightarrow> parse_listing L html u lid = Inl e"
  by (simp add: parse_listing_def then_do_def)


lemma parse_listing_fields:
  assumes "beautiful_soup L html = Inr soup"
  shows "\<exists>r. parse_listing L html u lid = Inr r
       \<and> listing_id r = lid \<and> url r = u
       \<and> title r = (case doc_h1 soup of None \<Rightarrow> None | Some h \<Rightarrow> clean (Some h))
       \<and> parse_price L (join [10] (text_lines_of soup)) = Inr (price_kzt r)
       \<and> city r = clean (line_after (text_lines_of soup) label_city)
       \<and> region r = py_or (clean (line_after (text_lines_of soup) label_region))
                       (clean (line_after (text_lines_of soup) label_oblast))
       \<and> generation r = clean (line_after (text_lines_of soup) label_generation)
       \<and> body_type r = clean (line_after (text_lines_of soup) label_body)
       \<and> transmission r = clean (line_after (text_lines_of soup) label_transmission)
       \<and> drivetrain r = clean (line_after (text_lines_of soup) label_drivetrain)
       \<and> steering r = clean (line_after (text_lines_of soup) label_steering)
       \<and> color r = clean (line_after (text_lines_of soup) label_color)
       \<and> customs_cleared r
           = parse_customs (clean (line_after (text_lines_of soup) label_customs))
       \<and> parse_mileage L (text_lines_of soup) (join [10] (text_lines_of soup))
           = Inr (mileage_km r)
       \<and> parse_engine L (clean (line_after (text_lines_of soup) label_engine))
           = Inr (engine_volume_l r, engine_type r)
       \<and> seller_name r = clean (line_after (text_lines_of soup) label_verified_seller)
       \<and> seller_type r = (if py_or (seller_name r) None \<noteq> None then ascii ''dealer''
                           else ascii ''private'')
       \<and> parse_options L (text_lines_of soup) = Inr (options_text r, options_list r)
       \<and> parse_title L (title r) = Inr (make' r, model r, trim r, car_year r)
       \<and> photos r = dedupe [] [] (collect_photos (doc_imgs soup))
       \<and> photo_count r = length (photos r)"
proof -
  obtain price where price: "parse_price L (join [10] (text_lines_of soup)) = Inr price"
    using parse_price_total by blast
  obtain mileage where mileage:
    "parse_mileage L (text_lines_of soup) (join [10] (text_lines_of soup)) = Inr mileage"
    using parse_mileage_total by blast
  obtain vol ety where engine:
    "parse_engine L (clean (line_after (text_lines_of soup) label_engine)) = Inr (vol, ety)"
    using parse_engine_total by blast
  obtain otext olist where options:
    "parse_options L (text_lines_of soup) = Inr (otext, olist)"
    using parse_options_total by blast
  obtain a b c d where ttl:
    "parse_title L (case doc_h1 soup of None \<Rightarrow> None | Some h \<Rightarrow> clean (Some h))
       = Inr (a, b, c, d)"
    using parse_title_total by blast
  show ?thesis
    unfolding parse_listing_def Let_def
    by (simp add: assms price mileage engine options ttl find_value_after_eq
        or_else_Inr parse_seller_eq then_do_def)
qed




section \<open>The customs field\<close>

lemma strip_ends:
  assumes "strip s \<noteq> []"
  shows "\<not> is_space (hd (strip s)) \<and> \<not> is_space (last (strip s))"
proof -
  define t where "t = dropWhile is_space s"
  define u where "u = dropWhile is_space (rev t)"
  have su: "strip s = rev u"
    by (simp add: strip_def t_def u_def)
  with assms have une: "u \<noteq> []" by simp
  then have hu: "\<not> is_space (hd u)"
    unfolding u_def by (rule hd_dropWhile)
  from une have tne: "t \<noteq> []"
    unfolding u_def by auto
  then have ht: "\<not> is_space (hd t)"
    unfolding t_def by (rule hd_dropWhile)
  have "rev t = takeWhile is_space (rev t) @ u"
    unfolding u_def by simp
  with une have "last u = last (rev t)"
    by (metis last_appendR)
  with tne have "last u = hd t"
    by (simp add: last_rev)
  with ht hu une show ?thesis
    by (simp add: su hd_rev last_rev)
qed

text \<open>Every line of \<open>text_lines\<close> is non-empty and has no whitespace at either end.\<close>

lemma text_lines_stripped:
  assumes "t \<in> set (text_lines_of soup)"
  shows "t \<noteq> [] \<and> \<not> is_space (hd t) \<and> \<not> is_space (last t)"
proof -
  from assms obtain ln where "t = strip ln" "strip ln \<noteq> []"
    by (auto simp: text_lines_of_def)
  then show ?thesis
    using strip_ends [of ln] by simp
qed

lemma join_two_has_sep: "32 \<in> set (join [32] (a # b # rest))"
  by simp

lemma split_ws_word:
  assumes "w \<noteq> []" "\<forall>c\<in>set w. \<not> is_space c"
  shows "split_ws w = [w]"
proof -
  from assms have "\<not> is_space (hd w)" by (cases w) auto
  with assms(1) have d: "dropWhile is_space w = w"
    by (cases w) auto
  from assms(2) have tk: "takeWhile (\<lambda>c. \<not> is_space c) w = w"
    by (simp add: takeWhile_eq_all_conv)
  from assms(2) have dr: "dropWhile (\<lambda>c. \<not> is_space c) w = []"
    by (simp add: dropWhile_eq_Nil_conv)
  have e: "split_ws [] = []"
    by (simp add: split_ws.simps)
  show ?thesis
    by (subst split_ws.simps) (simp add: d tk dr e assms(1))
qed

text \<open>
  \<open>_clean\<close> cannot turn another line into a word without whitespace: on a stripped line
  it only rewrites inner whitespace, and a line with inner whitespace keeps a space.
\<close>

lemma clean_eq_word:
  assumes t: "t \<noteq> []" "\<not> is_space (hd t)" "\<not> is_space (last t)"
    and w: "w \<noteq> []" "\<forall>c\<in>set w. \<not> is_space c"
  shows "clean (Some t) = Some w \<longleftrightarrow> t = w"
proof
  assume "t = w"
  with w show "clean (Some t) = Some w"
    by (simp add: clean_def split_ws_word)
next
  assume c: "clean (Some t) = Some w"
  define a where "a = takeWhile (\<lambda>c. \<not> is_space c) t"
  define d where "d = dropWhile (\<lambda>c. \<not> is_space c) t"
  from t have dt: "dropWhile is_space t = t"
    by (cases t) auto
  have sw: "split_ws t = a # split_ws d"
    by (subst split_ws.simps) (simp add: dt t(1) a_def d_def)
  from c have j: "join [32] (split_ws t) = w"
    by (simp add: clean_def Let_def split: if_splits)
  have rest: "split_ws d = []"
  proof (cases "split_ws d")
    case Nil
    then show ?thesis .
  next
    case (Cons b rest)
    with sw have "split_ws t = a # b # rest" by simp
    with j have "w = join [32] (a # b # rest)" by simp
    then have "32 \<in> set w"
      by (simp only: join_two_has_sep)
    moreover have "is_space 32"
      by (simp add: is_space_def)
    ultimately have False
      using w(2) by blast
    then show ?thesis ..
  qed
  with sw j have aw: "a = w" by simp
  from rest have "dropWhile is_space d = []"
    by (subst (asm) split_ws.simps) (simp add: Let_def split: if_splits)
  then have dsp: "\<forall>c\<in>set d. is_space c"
    by (simp add: dropWhile_eq_Nil_conv)
  have tad: "t = a @ d"
    by (simp add: a_def d_def)
  have "d = []"
  proof (rule ccontr)
    assume "d \<noteq> []"
    with tad have "last t = last d" by simp
    with \<open>d \<noteq> []\<close> dsp t(3) show False
      using last_in_set by metis
  qed
  with tad aw show "t = w" by simp
qed

lemma word_yes_plain: "word_yes \<noteq> [] \<and> (\<forall>c\<in>set word_yes. \<not> is_space c)"
  by (simp add: word_yes_def is_space_def)

lemma word_no_plain: "word_no \<noteq> [] \<and> (\<forall>c\<in>set word_no. \<not> is_space c)"
  by (simp add: word_no_def is_space_def)

lemma clean_line_after_word:
  assumes w: "w \<noteq> [] \<and> (\<forall>c\<in>set w. \<not> is_space c)"
  shows "clean (line_after (text_lines_of soup) l) = Some w
           \<longleftrightarrow> line_after (text_lines_of soup) l = Some w"
proof (cases "line_after (text_lines_of soup) l")
  case None
  then show ?thesis by (simp add: clean_None)
next
  case (Some t)
  then have "t \<in> set (text_lines_of soup)"
    by (rule line_after_mem)
  then have "t \<noteq> [] \<and> \<not> is_space (hd t) \<and> \<not> is_space (last t)"
    by (rule text_lines_stripped)
  with w Some show ?thesis
    by (simp add: clean_eq_word)
qed

text \<open>
  C10. For every page: either the parser call raises and \<open>parse_listing\<close> raises the
  same, or a record is returned, and then \<open>customs_cleared\<close> has three values: true
  exactly when the line that follows the customs label is the word for yes, false exactly
  when it is the word for no, and \<open>None\<close> in every other case (no label, no following
  line, any other line).
\<close>

theorem customs_cleared_tristate:
  "(\<exists>e. beautiful_soup L html = Inl e \<and> parse_listing L html u lid = Inl e)
   \<or> (\<exists>soup r. beautiful_soup L html = Inr soup
         \<and> parse_listing L html u lid = Inr r
         \<and> customs_cleared r =
             (if line_after (text_lines_of soup) label_customs = Some word_yes
              then Some True
              else if line_after (text_lines_of soup) label_customs = Some word_no
                   then Some False
              else None))"
proof (cases "beautiful_soup L html")
  case (Inl e)
  then have "parse_listing L html u lid = Inl e"
    by (rule parse_listing_no_document)
  with Inl show ?thesis
    by blast
next
  case (Inr soup)
  obtain r where r: "parse_listing L html u lid = Inr r"
    and c: "customs_cleared r
              = parse_customs (clean (line_after (text_lines_of soup) label_customs))"
    using parse_listing_fields [OF Inr, of u lid] by blast
  from c have "customs_cleared r =
             (if line_after (text_lines_of soup) label_customs = Some word_yes
              then Some True
              else if line_after (text_lines_of soup) label_customs = Some word_no
                   then Some False
              else None)"
    unfolding parse_customs_def
    by (simp add: clean_line_after_word [OF word_yes_plain]
        clean_line_after_word [OF word_no_plain])
  with Inr r show ?thesis
    by blast
qed

lemma customs_page_soup:
  "beautiful_soup text_lib customs_page
     = Inr \<lparr>doc_text = customs_page, doc_h1 = None, doc_imgs = []\<rparr>"
  by (simp add: beautiful_soup_def has_surrogate_def text_lib_def customs_page_def
      label_city_def label_customs_def word_yes_def ascii_def)

lemma customs_page_lines:
  "text_lines_of \<lparr>doc_text = customs_page, doc_h1 = None, doc_imgs = []\<rparr>
     = [label_city, ascii ''Almaty'', label_customs, word_yes]"
  by (simp add: text_lines_of_def customs_page_def label_city_def
      label_customs_def word_yes_def ascii_def strip_def is_space_def)

theorem customs_cleared_tristate_witness:
  "beautiful_soup text_lib customs_page
     = Inr \<lparr>doc_text = customs_page, doc_h1 = None, doc_imgs = []\<rparr>
   \<and> (\<exists>r. parse_listing text_lib customs_page (ascii ''https://kolesa.kz/a/show/7'') 7 = Inr r
          \<and> customs_cleared r = Some True)"
proof -
  have "line_after (text_lines_of \<lparr>doc_text = customs_page, doc_h1 = None, doc_imgs = []\<rparr>)
          label_customs = Some word_yes"
    unfolding customs_page_lines
    by (simp add: label_city_def label_customs_def ascii_def)
  with customs_cleared_tristate
         [of text_lib customs_page "ascii ''https://kolesa.kz/a/show/7''" 7]
  have "\<exists>r. parse_listing text_lib customs_page (ascii ''https://kolesa.kz/a/show/7'') 7 = Inr r
          \<and> customs_cleared r = Some True"
    by (auto simp add: customs_page_soup)
  with customs_page_soup show ?thesis
    by (rule conjI)
qed

section \<open>Blocking detection\<close>

lemma startswith_iff: "startswith s p \<longleftrightarrow> (\<exists>q. s = p @ q)"
  by (induction s p rule: startswith.induct) auto

lemma py_in_iff: "py_in k s \<longleftrightarrow> (\<exists>p q. s = p @ k @ q)"
proof (induction s)
  case Nil
  then show ?case by auto
next
  case (Cons c cs)
  show ?case
  proof
    assume "py_in k (c # cs)"
    then consider "startswith (c # cs) k" | "py_in k cs" by auto
    then show "\<exists>p q. c # cs = p @ k @ q"
    proof cases
      case 1
      then obtain q where "c # cs = k @ q"
        by (auto simp: startswith_iff)
      then have "c # cs = [] @ k @ q" by simp
      then show ?thesis by blast
    next
      case 2
      with Cons.IH obtain p q where "cs = p @ k @ q" by blast
      then have "c # cs = (c # p) @ k @ q" by simp
      then show ?thesis by blast
    qed
  next
    assume "\<exists>p q. c # cs = p @ k @ q"
    then obtain p q where pq: "c # cs = p @ k @ q" by blast
    show "py_in k (c # cs)"
    proof (cases p)
      case Nil
      with pq have "startswith (c # cs) k"
        by (auto simp: startswith_iff)
      then show ?thesis by simp
    next
      case (Cons a p')
      with pq have "cs = p' @ k @ q" by simp
      with Cons.IH have "py_in k cs" by blast
      then show ?thesis by simp
    qed
  qed
qed

lemma lower_middle:
  assumes "plain_lower k"
  shows "concat (map (lower_at L (p @ k @ q)) [length p..<length p + length k]) = k"
proof -
  have "map (lower_at L (p @ k @ q)) [length p..<length p + length k] = map (\<lambda>c. [c]) k"
  proof (rule nth_equalityI)
    show "length (map (lower_at L (p @ k @ q)) [length p..<length p + length k])
            = length (map (\<lambda>c. [c]) k)"
      by simp
  next
    fix i
    assume "i < length (map (lower_at L (p @ k @ q)) [length p..<length p + length k])"
    then have i: "i < length k" by simp
    then have "(p @ k @ q) ! (length p + i) = k ! i"
      by (simp add: nth_append)
    moreover from i assms have "k ! i < 128 \<and> \<not> (65 \<le> k ! i \<and> k ! i \<le> 90)"
      by (simp add: plain_lower_def)
    ultimately have "lower_at L (p @ k @ q) (length p + i) = [k ! i]"
      by (auto simp add: lower_at_def Let_def)
    with i show "map (lower_at L (p @ k @ q)) [length p..<length p + length k] ! i
                   = map (\<lambda>c. [c]) k ! i"
      by simp
  qed
  then show ?thesis by simp
qed

lemma py_in_lower:
  assumes "plain_lower k" "py_in k s"
  shows "py_in k (str_lower L s)"
proof -
  from assms(2) obtain p q where s: "s = p @ k @ q"
    by (auto simp: py_in_iff)
  have a: "[0..<length p + length k + length q]
          = [0..<length p + length k]
            @ [length p + length k..<length p + length k + length q]"
    by (rule upt_add_eq_append) (rule le0)
  have b: "[0..<length p + length k] = [0..<length p] @ [length p..<length p + length k]"
    by (rule upt_add_eq_append) (rule le0)
  have c: "length s = length p + length k + length q"
    unfolding s by simp
  have "[0..<length s] = [0..<length p] @ [length p..<length p + length k]
          @ [length p + length k..<length p + length k + length q]"
    unfolding c by (subst a, subst b) simp
  then have "str_lower L s =
      concat (map (lower_at L s) [0..<length p])
      @ concat (map (lower_at L s) [length p..<length p + length k])
      @ concat (map (lower_at L s) [length p + length k..<length p + length k + length q])"
    by (simp add: str_lower_def)
  then have "str_lower L s =
      concat (map (lower_at L s) [0..<length p]) @ k
      @ concat (map (lower_at L s) [length p + length k..<length p + length k + length q])"
    unfolding s by (simp only: lower_middle [OF assms(1)])
  then show ?thesis
    unfolding py_in_iff by blast
qed

lemma blocking_keywords_plain: "k \<in> set blocking_keywords \<Longrightarrow> plain_lower k"
  by (auto simp: blocking_keywords_def plain_lower_def ascii_def)

lemma short_with_keyword:
  assumes "length html < 5000" "k \<in> set blocking_keywords" "py_in k (str_lower L html)"
  shows "detect_blocking L html u
           = (True, Some (ascii ''Suspiciously short response with blocking keywords''))"
proof -
  from assms(2,3) have "list_ex (\<lambda>keyword. py_in keyword (str_lower L html)) blocking_keywords"
    unfolding list_ex_iff by blast
  with assms(1) show ?thesis
    by (simp add: detect_blocking_def Let_def)
qed

lemma long_and_clean:
  assumes "20000 \<le> length html"
    and "\<forall>x\<in>set blocking_patterns. re_search L (fst x) True (str_lower L html) = None"
    and "case re_search L title_pattern False (str_lower L html) of
           None \<Rightarrow> True
         | Some m \<Rightarrow> \<not> list_ex (\<lambda>keyword. py_in keyword (group1 m)) title_keywords"
  shows "detect_blocking L html u = (False, None)"
proof -
  have "List.find (\<lambda>(pattern, reason). re_search L pattern True (str_lower L html) \<noteq> None)
          blocking_patterns = None"
    using assms(2) by (auto simp: find_None_iff)
  with assms(1,3) show ?thesis
    by (auto simp add: detect_blocking_def Let_def split: option.splits)
qed


text \<open>
  C6. A page shorter than 5000 characters that contains one of the four keywords (as it
  stands or after lower-casing, which is where the code looks) is blocked, with the reason
  of the first check; so a page of 3000 characters with the word captcha is blocked. A
  page of at least 20000 characters, hence one of 50000, in which no challenge pattern
  matches and whose title, if it has one, holds no blocking keyword, is not blocked.
\<close>

theorem detect_blocking_fixtures:
  "(length html < 5000 \<and> k \<in> set blocking_keywords
      \<and> (py_in k html \<or> py_in k (str_lower L html))
      \<longrightarrow> detect_blocking L html u
            = (True, Some (ascii ''Suspiciously short response with blocking keywords'')))
   \<and> (length html = 3000 \<and> py_in (ascii ''captcha'') html
        \<longrightarrow> fst (detect_blocking L html u))
   \<and> (20000 \<le> length html
        \<and> (\<forall>x\<in>set blocking_patterns. re_search L (fst x) True (str_lower L html) = None)
        \<and> (\<forall>m. re_search L title_pattern False (str_lower L html) = Some m
               \<longrightarrow> (\<forall>keyword\<in>set title_keywords. \<not> py_in keyword (group1 m)))
        \<longrightarrow> detect_blocking L html u = (False, None))"
proof (intro conjI impI)
  assume a: "length html < 5000 \<and> k \<in> set blocking_keywords
      \<and> (py_in k html \<or> py_in k (str_lower L html))"
  then have "py_in k (str_lower L html)"
    using py_in_lower [OF blocking_keywords_plain, of k html L] by blast
  with a show "detect_blocking L html u
            = (True, Some (ascii ''Suspiciously short response with blocking keywords''))"
    using short_with_keyword by blast
next
  assume a: "length html = 3000 \<and> py_in (ascii ''captcha'') html"
  have k: "ascii ''captcha'' \<in> set blocking_keywords"
    by (simp add: blocking_keywords_def)
  from a have "py_in (ascii ''captcha'') (str_lower L html)"
    using py_in_lower [OF blocking_keywords_plain [OF k]] by blast
  moreover from a have "length html < 5000" by simp
  ultimately show "fst (detect_blocking L html u)"
    using short_with_keyword [OF _ k] by simp
next
  assume a: "20000 \<le> length html
        \<and> (\<forall>x\<in>set blocking_patterns. re_search L (fst x) True (str_lower L html) = None)
        \<and> (\<forall>m. re_search L title_pattern False (str_lower L html) = Some m
               \<longrightarrow> (\<forall>keyword\<in>set title_keywords. \<not> py_in keyword (group1 m)))"
  then have "case re_search L title_pattern False (str_lower L html) of
           None \<Rightarrow> True
         | Some m \<Rightarrow> \<not> list_ex (\<lambda>keyword. py_in keyword (group1 m)) title_keywords"
    by (simp add: list_ex_iff split: option.splits)
  with a show "detect_blocking L html u = (False, None)"
    using long_and_clean by blast
qed

theorem detect_blocking_fixtures_witness:
  "length captcha_page = 3000
   \<and> py_in (ascii ''captcha'') captcha_page
   \<and> detect_blocking text_lib captcha_page (ascii ''https://kolesa.kz/a/show/1'')
       = (True, Some (ascii ''Suspiciously short response with blocking keywords''))
   \<and> length normal_page = 50000
   \<and> detect_blocking text_lib normal_page (ascii ''https://kolesa.kz/a/show/1'')
       = (False, None)"
proof -
  have len: "length captcha_page = 3000"
    by (simp add: captcha_page_def ascii_def)
  have "captcha_page = ascii ''<html>'' @ ascii ''captcha'' @ replicate 2987 32"
    by (simp add: captcha_page_def ascii_def)
  then have word: "py_in (ascii ''captcha'') captcha_page"
    unfolding py_in_iff by blast
  have k: "ascii ''captcha'' \<in> set blocking_keywords"
    by (simp add: blocking_keywords_def)
  have n: "length normal_page = 50000"
    by (simp add: normal_page_def)
  have lib: "\<forall>x\<in>set blocking_patterns.
      re_search text_lib (fst x) True (str_lower text_lib normal_page) = None"
    "\<forall>m. re_search text_lib title_pattern False (str_lower text_lib normal_page) = Some m
        \<longrightarrow> (\<forall>keyword\<in>set title_keywords. \<not> py_in keyword (group1 m))"
    by (simp_all add: text_lib_def)
  from detect_blocking_fixtures
         [of captcha_page "ascii ''captcha''" text_lib "ascii ''https://kolesa.kz/a/show/1''"]
       len word k
  have "detect_blocking text_lib captcha_page (ascii ''https://kolesa.kz/a/show/1'')
       = (True, Some (ascii ''Suspiciously short response with blocking keywords''))"
    by simp
  moreover
  from detect_blocking_fixtures
         [of normal_page "ascii ''captcha''" text_lib "ascii ''https://kolesa.kz/a/show/1''"]
       n lib
  have "detect_blocking text_lib normal_page (ascii ''https://kolesa.kz/a/show/1'')
       = (False, None)"
    by simp
  ultimately show ?thesis
    using len word n by simp
qed

section \<open>Persistence\<close>

lemma py_float_of_int_exact: "\<bar>n\<bar> < 2 ^ 53 \<Longrightarrow> py_float_of_int n = Inr n"
  by (simp add: py_float_of_int_def)

lemma price_changed_exact:
  "\<bar>old\<bar> < 2 ^ 53 \<Longrightarrow> \<bar>new\<bar> < 2 ^ 53 \<Longrightarrow>
   price_changed (Some old) (Some new) = Inr (if old \<noteq> new then Some (old, new) else None)"
  by (simp add: price_changed_def py_float_of_int_exact then_do_def)

lemma price_changed_total:
  "float_ok old \<Longrightarrow> float_ok new \<Longrightarrow> \<exists>c. price_changed old new = Inr c"
  by (cases old; cases new)
     (auto simp add: price_changed_def float_ok_def then_do_def split: sum.splits)

lemma float_ok_exact: "\<bar>n\<bar> < 2 ^ 53 \<Longrightarrow> float_ok (Some n)"
  by (simp add: float_ok_def py_float_of_int_exact)

lemma upsert_silver_tables:
  assumes "tzinfo fetched_at \<noteq> None"
    and "price_changed (stored_price db (listing_id l)) (price_kzt l) = Inr changed"
  shows "upsert_silver digest today l fetched_at db =
     Inr \<lparr>listing_current =
            upsert_current (listing_id l)
              (current_insert l
                 (case listing_current db (listing_id l) of
                    None \<Rightarrow> instant_of fetched_at | Some r \<Rightarrow> c_first_seen_at r)
                 (instant_of fetched_at) (digest l))
              (listing_current db),
          listing_snapshot_daily =
            upsert_daily (listing_id l, today) (price_kzt l) (Some (photo_count l))
              (listing_snapshot_daily db),
          listing_price_event =
            (case changed of
               Some (old, new) \<Rightarrow>
                 insert_price_event
                   \<lparr>e_listing_id = listing_id l, e_event_ts = instant_of fetched_at,
                    e_old_price_kzt = old, e_new_price_kzt = new\<rparr>
                   (listing_price_event db)
             | None \<Rightarrow> listing_price_event db)\<rparr>"
  using assms by (simp add: upsert_silver_def stored_price_def Let_def then_do_def)

text \<open>
  C3. Upserting a record over a listing whose stored price and new price are both present
  (and in the range where the \<open>float\<close> comparison of the code is exact, which holds every
  price a \<open>NUMERIC(14,2)\<close> column can store): when the prices differ, exactly one event
  with the old price, the new price and the fetch timestamp is appended, unless an event
  of this listing with this timestamp is already there, in which case nothing is appended;
  when the prices are equal nothing is appended.
\<close>

theorem price_event_on_change:
  assumes "tzinfo fetched_at \<noteq> None"
    and "listing_current db (listing_id l) = Some r"
    and "c_price_kzt r = Some old" and "price_kzt l = Some new"
    and "\<bar>old\<bar> < 2 ^ 53" and "\<bar>new\<bar> < 2 ^ 53"
  shows "\<exists>db'. upsert_silver digest today l fetched_at db = Inr db'
           \<and> listing_price_event db' =
               (if old \<noteq> new
                   \<and> \<not> list_ex (\<lambda>e. e_listing_id e = listing_id l
                                     \<and> e_event_ts e = instant_of fetched_at)
                          (listing_price_event db)
                then listing_price_event db
                     @ [\<lparr>e_listing_id = listing_id l, e_event_ts = instant_of fetched_at,
                         e_old_price_kzt = old, e_new_price_kzt = new\<rparr>]
                else listing_price_event db)"
proof -
  from assms(2,3) have "stored_price db (listing_id l) = Some old"
    by (simp add: stored_price_def)
  with assms(4-6) have "price_changed (stored_price db (listing_id l)) (price_kzt l)
      = Inr (if old \<noteq> new then Some (old, new) else None)"
    by (simp add: price_changed_exact)
  from upsert_silver_tables [OF assms(1) this, of digest today]
  show ?thesis
    by (simp add: insert_price_event_def)
qed


lemma first_upsert_eq:
  "upsert_silver no_digest 0 (camry 12000000) (now_utc 1000) empty_silver = Inr first_upsert"
proof -
  have "price_changed (stored_price empty_silver (listing_id (camry 12000000)))
          (price_kzt (camry 12000000)) = Inr None"
    by (simp add: stored_price_def empty_silver_def price_changed_def)
  from upsert_silver_tables [OF _ this, of "now_utc 1000" no_digest 0]
  show ?thesis
    by (simp add: now_utc_def empty_silver_def first_upsert_def upsert_current_def
        upsert_daily_def camry_def no_digest_def)
qed

lemma first_upsert_row:
  "listing_current first_upsert (listing_id (camry p))
     = Some (current_insert (camry 12000000) 1000 1000 [])"
  by (simp add: first_upsert_def camry_def)

theorem price_event_on_change_witness:
  "\<exists>db2 db3.
      upsert_silver no_digest 0 (camry 12500000) (now_utc 2000) first_upsert = Inr db2
      \<and> listing_price_event db2 =
          [\<lparr>e_listing_id = 888888888, e_event_ts = 2000,
            e_old_price_kzt = 12000000, e_new_price_kzt = 12500000\<rparr>]
      \<and> upsert_silver no_digest 0 (camry 12500000) (now_utc 3000) db2 = Inr db3
      \<and> listing_price_event db3 = listing_price_event db2"
proof -
  have tz: "tzinfo (now_utc 2000) \<noteq> None" "tzinfo (now_utc 3000) \<noteq> None"
    by (simp_all add: now_utc_def)
  have price: "c_price_kzt (current_insert (camry 12000000) 1000 1000 []) = Some 12000000"
    "price_kzt (camry 12500000) = Some 12500000"
    by (simp_all add: current_insert_def camry_def)
  from price_event_on_change [OF tz(1) first_upsert_row price, of no_digest 0]
  obtain db2
    where db2: "upsert_silver no_digest 0 (camry 12500000) (now_utc 2000) first_upsert = Inr db2"
      and ev2: "listing_price_event db2 =
          [\<lparr>e_listing_id = 888888888, e_event_ts = 2000,
            e_old_price_kzt = 12000000, e_new_price_kzt = 12500000\<rparr>]"
    by (auto simp add: first_upsert_def camry_def now_utc_def)
  have "price_changed (stored_price first_upsert (listing_id (camry 12500000)))
          (price_kzt (camry 12500000)) = Inr (Some (12000000, 12500000))"
    by (simp add: stored_price_def first_upsert_row price price_changed_exact)
  from upsert_silver_tables [OF tz(1) this, of no_digest 0] db2
  have "listing_current db2 (listing_id (camry 12500000))
          = Some (current_update (current_insert (camry 12500000) 1000 2000 [])
                    (current_insert (camry 12000000) 1000 1000 []))"
    by (auto simp add: upsert_current_def first_upsert_row now_utc_def no_digest_def
        current_insert_def)
  moreover have "c_price_kzt (current_update (current_insert (camry 12500000) 1000 2000 [])
                    (current_insert (camry 12000000) 1000 1000 [])) = Some 12500000"
    by (simp add: current_update_def current_insert_def camry_def)
  ultimately obtain db3
    where "upsert_silver no_digest 0 (camry 12500000) (now_utc 3000) db2 = Inr db3"
      and "listing_price_event db3 = listing_price_event db2"
    using price_event_on_change [OF tz(2) _ _ price(2), of db2 _ 12500000 no_digest 0]
    by auto
  with db2 ev2 show ?thesis
    by blast
qed

text \<open>
  C7, as the code has it. The daily snapshot is keyed by the listing and by \<open>today\<close>, the
  date \<open>date.today()\<close> returns when the upsert runs; \<open>fetched_at\<close> has no part in the key.
  For every record and every aware \<open>fetched_at\<close> (and prices that \<open>float\<close> can take, or
  the upsert raises) the row of that key gets the price, the activity flag true and the
  photo count; its \<open>views\<close> are \<open>NULL\<close> when the row is new and
  unchanged when it was there; no other snapshot row changes.
\<close>

theorem daily_snapshot_keyed_by_today:
  assumes "tzinfo fetched_at \<noteq> None"
    and "float_ok (stored_price db (listing_id l))" and "float_ok (price_kzt l)"
  shows "\<exists>db' row. upsert_silver digest today l fetched_at db = Inr db'
           \<and> listing_snapshot_daily db' (listing_id l, today) = Some row
           \<and> d_price_kzt row = price_kzt l \<and> d_is_active row
           \<and> d_photo_count row = Some (photo_count l)
           \<and> d_views row =
               (case listing_snapshot_daily db (listing_id l, today) of
                  None \<Rightarrow> None | Some before \<Rightarrow> d_views before)
           \<and> (\<forall>key. key \<noteq> (listing_id l, today)
                 \<longrightarrow> listing_snapshot_daily db' key = listing_snapshot_daily db key)"
proof -
  from price_changed_total [OF assms(2,3)] obtain c
    where "price_changed (stored_price db (listing_id l)) (price_kzt l) = Inr c" ..
  from upsert_silver_tables [OF assms(1) this, of digest today]
  show ?thesis
    by (auto simp add: upsert_daily_def split: option.splits)
qed


text \<open>
  C7 as stated fails: a page fetched at 20:00 UTC of day 0 and persisted by a process
  whose local date is already day 1 gets its snapshot under day 1, and none under the day
  of \<open>fetched_at\<close>.
\<close>

theorem daily_snapshot_date_counterexample:
  "\<exists>db'. upsert_silver no_digest 1 (camry 12000000) (now_utc 72000000000) empty_silver
           = Inr db'
         \<and> date_of (now_utc 72000000000) = 0
         \<and> listing_snapshot_daily db' (888888888, 0) = None
         \<and> listing_snapshot_daily db' (888888888, 1)
             = Some \<lparr>d_price_kzt = Some 12000000, d_is_active = True, d_views = None,
                      d_photo_count = Some 1\<rparr>"
proof -
  have "price_changed (stored_price empty_silver (listing_id (camry 12000000)))
          (price_kzt (camry 12000000)) = Inr None"
    by (simp add: stored_price_def empty_silver_def price_changed_def)
  from upsert_silver_tables [OF _ this, of "now_utc 72000000000" no_digest 1]
  show ?thesis
    by (simp add: now_utc_def date_of_def one_day_def empty_silver_def upsert_daily_def
        camry_def)
qed

theorem daily_snapshot_keyed_by_today_witness:
  "\<exists>db'. upsert_silver no_digest 0 (camry 12500000) (now_utc 2000) first_upsert_viewed
           = Inr db'
         \<and> listing_snapshot_daily db' (888888888, 0)
             = Some \<lparr>d_price_kzt = Some 12500000, d_is_active = True, d_views = Some 7,
                      d_photo_count = Some 1\<rparr>"
proof -
  have tz: "tzinfo (now_utc 2000) \<noteq> None"
    by (simp add: now_utc_def)
  have ex: "float_ok (stored_price first_upsert_viewed (listing_id (camry 12500000)))"
    "float_ok (price_kzt (camry 12500000))"
    by (simp_all add: float_ok_exact stored_price_def first_upsert_viewed_def
        first_upsert_def current_insert_def camry_def)
  from daily_snapshot_keyed_by_today [OF tz ex, of no_digest 0]
  show ?thesis
    by (auto simp add: first_upsert_viewed_def first_upsert_def camry_def)
qed

text \<open>
  C8. Upserting (with an aware \<open>fetched_at\<close> and prices that \<open>float\<close> can take, or the
  upsert raises) over an existing row of \<open>listing_current\<close> sets every attribute column to
  the value of the new record and the fingerprint to the digest of the new record, sets
  \<open>last_seen_at\<close> to \<open>fetched_at\<close> and \<open>is_active\<close> to true, and keeps the stored
  \<open>first_seen_at\<close>.
\<close>

theorem upsert_overwrites_current:
  assumes "tzinfo fetched_at \<noteq> None"
    and "listing_current db (listing_id l) = Some r"
    and "float_ok (c_price_kzt r)" and "float_ok (price_kzt l)"
  shows "\<exists>db' r'. upsert_silver digest today l fetched_at db = Inr db'
           \<and> listing_current db' (listing_id l) = Some r'
           \<and> c_url r' = url l \<and> c_title r' = title l \<and> c_price_kzt r' = price_kzt l
           \<and> c_city r' = city l \<and> c_region r' = region l \<and> c_make r' = make' l
           \<and> c_model r' = model l \<and> c_generation r' = generation l \<and> c_trim r' = trim l
           \<and> c_car_year r' = car_year l \<and> c_mileage_km r' = mileage_km l
           \<and> c_body_type r' = body_type l \<and> c_engine_volume_l r' = engine_volume_l l
           \<and> c_engine_type r' = engine_type l \<and> c_transmission r' = transmission l
           \<and> c_drivetrain r' = drivetrain l \<and> c_steering r' = steering l
           \<and> c_color r' = color l \<and> c_customs_cleared r' = customs_cleared l
           \<and> c_seller_name r' = seller_name l \<and> c_seller_type r' = seller_type l
           \<and> c_options_text r' = options_text l \<and> c_photos r' = photos l
           \<and> c_payload_hash r' = digest l
           \<and> c_last_seen_at r' = instant_of fetched_at \<and> c_is_active r'
           \<and> c_first_seen_at r' = c_first_seen_at r"
proof -
  from assms(2,3) have "float_ok (stored_price db (listing_id l))"
    by (simp add: stored_price_def)
  from price_changed_total [OF this assms(4)] obtain c
    where "price_changed (stored_price db (listing_id l)) (price_kzt l) = Inr c" ..
  from upsert_silver_tables [OF assms(1) this, of digest today]
  show ?thesis
    by (simp add: upsert_current_def assms(2) current_update_def current_insert_def)
qed


theorem upsert_overwrites_current_witness:
  "\<exists>db' r'. upsert_silver no_digest 0 (camry 12500000) (now_utc 2000) first_upsert = Inr db'
         \<and> listing_current db' 888888888 = Some r'
         \<and> c_price_kzt r' = Some 12500000 \<and> c_last_seen_at r' = 2000 \<and> c_is_active r'
         \<and> c_first_seen_at r' = 1000"
proof -
  have tz: "tzinfo (now_utc 2000) \<noteq> None"
    by (simp add: now_utc_def)
  have ex: "float_ok (c_price_kzt (current_insert (camry 12000000) 1000 1000 []))"
    "float_ok (price_kzt (camry 12500000))"
    by (simp_all add: float_ok_exact current_insert_def camry_def)
  from upsert_overwrites_current [OF tz first_upsert_row ex, of no_digest 0]
  show ?thesis
    by (auto simp add: camry_def now_utc_def current_insert_def)
qed

section \<open>Idempotent enqueue\<close>

lemma list_ex_ids: "list_ex (\<lambda>r. q_listing_id r = lid) queue \<longleftrightarrow> lid \<in> q_listing_id ` set queue"
  by (auto simp: list_ex_iff)

lemma enqueue_absent:
  "lid \<notin> q_listing_id ` set queue \<Longrightarrow> enqueue lid u queue = (queue @ [new_queue_row lid u], 1)"
  by (simp add: enqueue_def list_ex_ids)

lemma enqueue_present:
  "lid \<in> q_listing_id ` set queue \<Longrightarrow> enqueue lid u queue = (queue, 0)"
  by (simp add: enqueue_def list_ex_ids)

lemma enqueue_has_id: "lid \<in> q_listing_id ` set (fst (enqueue lid u queue))"
  by (cases "lid \<in> q_listing_id ` set queue")
     (simp_all add: enqueue_absent enqueue_present new_queue_row_def)

lemma enqueue_again: "enqueue lid u' (fst (enqueue lid u queue)) = (fst (enqueue lid u queue), 0)"
  by (rule enqueue_present) (rule enqueue_has_id)

lemma enqueue_distinct:
  "distinct (map q_listing_id queue) \<Longrightarrow> distinct (map q_listing_id (fst (enqueue lid u queue)))"
  by (cases "lid \<in> q_listing_id ` set queue")
     (simp_all add: enqueue_absent enqueue_present new_queue_row_def)

lemma one_row_of_id:
  assumes "distinct (map q_listing_id queue)" "lid \<in> q_listing_id ` set queue"
  shows "length (filter (\<lambda>r. q_listing_id r = lid) queue) = 1"
  using assms
proof (induction queue)
  case Nil
  then show ?case by simp
next
  case (Cons r rs)
  show ?case
  proof (cases "q_listing_id r = lid")
    case True
    with Cons.prems(1) have "lid \<notin> q_listing_id ` set rs" by auto
    then have "filter (\<lambda>r. q_listing_id r = lid) rs = []"
      by (auto simp: filter_empty_conv)
    with True show ?thesis by simp
  next
    case False
    with Cons show ?thesis by auto
  qed
qed

lemma insert_ids_result:
  "distinct ids \<Longrightarrow>
   insert_ids base ids queue n =
     (queue @ map (\<lambda>i. new_queue_row i (base @ ascii ''/a/show/'' @ str_of_int i))
                (filter (\<lambda>i. i \<notin> q_listing_id ` set queue) ids),
      n + length (filter (\<lambda>i. i \<notin> q_listing_id ` set queue) ids))"
proof (induction ids arbitrary: queue n)
  case Nil
  then show ?case by simp
next
  case (Cons lid ids)
  then have d: "distinct ids" and fresh: "lid \<notin> set ids" by simp_all
  show ?case
  proof (cases "lid \<in> q_listing_id ` set queue")
    case True
    with Cons.IH [OF d, of queue n] show ?thesis
      by (simp add: enqueue_present)
  next
    case False
    let ?row = "new_queue_row lid (base @ ascii ''/a/show/'' @ str_of_int lid)"
    have same: "filter (\<lambda>i. i \<notin> q_listing_id ` set (queue @ [?row])) ids
                  = filter (\<lambda>i. i \<notin> q_listing_id ` set queue) ids"
      using fresh by (intro filter_cong) (auto simp: new_queue_row_def)
    note IH = Cons.IH [OF d, of "queue @ [?row]" "n + 1", unfolded same]
    have "insert_ids base (lid # ids) queue n = insert_ids base ids (queue @ [?row]) (n + 1)"
      using False by (simp add: enqueue_absent)
    with IH False show ?thesis
      by simp
  qed
qed

lemma collect_ids_distinct: "distinct all_ids \<Longrightarrow> distinct (collect_ids pages all_ids)"
  by (induction pages all_ids rule: collect_ids.induct) (auto simp: Let_def)

lemma count_new_ids:
  "distinct ids \<Longrightarrow>
   length (filter (\<lambda>i. i \<notin> q_listing_id ` set queue) ids)
     = card (set ids - q_listing_id ` set queue)"
proof -
  assume "distinct ids"
  then have "length (filter (\<lambda>i. i \<notin> q_listing_id ` set queue) ids)
      = card ({i. i \<notin> q_listing_id ` set queue} \<inter> set ids)"
    by (rule distinct_length_filter)
  moreover have "{i. i \<notin> q_listing_id ` set queue} \<inter> set ids
      = set ids - q_listing_id ` set queue"
    by auto
  ultimately show ?thesis by simp
qed

lemma discover_result:
  "discover_pages_to_db base pages queue =
     (queue @ map (\<lambda>i. new_queue_row i (base @ ascii ''/a/show/'' @ str_of_int i))
                (filter (\<lambda>i. i \<notin> q_listing_id ` set queue) (collect_ids pages [])),
      card (set (collect_ids pages []) - q_listing_id ` set queue))"
proof -
  have d: "distinct (collect_ids pages [])"
    by (rule collect_ids_distinct) simp
  show ?thesis
  proof (cases "collect_ids pages [] = []")
    case True
    then show ?thesis by (simp add: discover_pages_to_db_def Let_def)
  next
    case False
    with insert_ids_result [OF d, of base queue 0] count_new_ids [OF d, of queue]
    show ?thesis
      by (simp add: discover_pages_to_db_def Let_def)
  qed
qed

text \<open>
  C9. Enqueue inserts a NEW row with no attempts when the id is absent and leaves the
  table as it is when the id is present, so no state or attempt count is overwritten; a
  second enqueue of the same id is a no-op, and a table with one row per id then has
  exactly one row of that id. The insert loop, and with it the discovery entry point,
  return the number of discovered ids that were not in the queue, which is the number of
  rows added; the rows that were there are untouched.
\<close>

theorem enqueue_idempotent:
  "(lid \<notin> q_listing_id ` set queue \<longrightarrow>
      enqueue lid u queue = (queue @ [new_queue_row lid u], 1)
      \<and> q_state (new_queue_row lid u) = NEW \<and> q_attempts (new_queue_row lid u) = 0)
   \<and> (lid \<in> q_listing_id ` set queue \<longrightarrow> enqueue lid u queue = (queue, 0))
   \<and> enqueue lid u' (fst (enqueue lid u queue)) = (fst (enqueue lid u queue), 0)
   \<and> (distinct (map q_listing_id queue) \<longrightarrow>
        length (filter (\<lambda>r. q_listing_id r = lid)
                  (fst (enqueue lid u' (fst (enqueue lid u queue))))) = 1)
   \<and> (distinct ids \<longrightarrow>
        snd (insert_ids base ids queue 0) = card (set ids - q_listing_id ` set queue))
   \<and> snd (discover_pages_to_db base pages queue)
       = card (set (collect_ids pages []) - q_listing_id ` set queue)
   \<and> length (fst (discover_pages_to_db base pages queue))
       = length queue + snd (discover_pages_to_db base pages queue)
   \<and> take (length queue) (fst (discover_pages_to_db base pages queue)) = queue"
proof (intro conjI impI)
  assume "lid \<notin> q_listing_id ` set queue"
  then show "enqueue lid u queue = (queue @ [new_queue_row lid u], 1)"
    by (rule enqueue_absent)
next
  show "q_state (new_queue_row lid u) = NEW" "q_attempts (new_queue_row lid u) = 0"
    by (simp_all add: new_queue_row_def)
next
  assume "lid \<in> q_listing_id ` set queue"
  then show "enqueue lid u queue = (queue, 0)"
    by (rule enqueue_present)
next
  show "enqueue lid u' (fst (enqueue lid u queue)) = (fst (enqueue lid u queue), 0)"
    by (rule enqueue_again)
next
  assume "distinct (map q_listing_id queue)"
  then have "distinct (map q_listing_id (fst (enqueue lid u queue)))"
    by (rule enqueue_distinct)
  then have "length (filter (\<lambda>r. q_listing_id r = lid) (fst (enqueue lid u queue))) = 1"
    using enqueue_has_id by (rule one_row_of_id)
  then show "length (filter (\<lambda>r. q_listing_id r = lid)
                  (fst (enqueue lid u' (fst (enqueue lid u queue))))) = 1"
    by (simp add: enqueue_again)
next
  assume d: "distinct ids"
  then show "snd (insert_ids base ids queue 0) = card (set ids - q_listing_id ` set queue)"
    by (simp add: insert_ids_result count_new_ids)
next
  show "snd (discover_pages_to_db base pages queue)
       = card (set (collect_ids pages []) - q_listing_id ` set queue)"
    by (simp add: discover_result)
next
  have d: "distinct (collect_ids pages [])"
    by (rule collect_ids_distinct) simp
  show "length (fst (discover_pages_to_db base pages queue))
       = length queue + snd (discover_pages_to_db base pages queue)"
    by (simp add: discover_result count_new_ids [OF d])
next
  show "take (length queue) (fst (discover_pages_to_db base pages queue)) = queue"
    by (simp add: discover_result)
qed

theorem enqueue_idempotent_witness:
  "enqueue 101 (ascii ''https://kolesa.kz/a/show/101'') [retried_row] = ([retried_row], 0)
   \<and> enqueue 102 (ascii ''u'') [retried_row] = ([retried_row, new_queue_row 102 (ascii ''u'')], 1)
   \<and> length (filter (\<lambda>r. q_listing_id r = 102)
        (fst (enqueue 102 (ascii ''v'') (fst (enqueue 102 (ascii ''u'') [retried_row]))))) = 1
   \<and> snd (insert_ids (ascii ''https://kolesa.kz'') [103, 101, 102] [retried_row] 0) = 2
   \<and> snd (discover_pages_to_db (ascii ''https://kolesa.kz'')
             [Ids [101, 102, 103], Failed, Ids [103], Ids [], Ids [104]] [retried_row]) = 2"
proof -
  have ids: "q_listing_id retried_row = 101"
    by (simp add: retried_row_def)
  have c: "collect_ids [Ids [101, 102, 103], Failed, Ids [103], Ids [], Ids [104]] []
             = [101, 102, 103]"
    by simp
  have "{101, 102, 103} - {101} = {102, 103 :: int}" "{103, 101, 102} - {101} = {103, 102 :: int}"
    by auto
  then have k: "card ({101, 102, 103} - {101 :: int}) = 2" "card ({103, 101, 102} - {101 :: int}) = 2"
    by simp_all
  note t1 = enqueue_idempotent [of 101 "[retried_row]" "ascii ''https://kolesa.kz/a/show/101''"
         "ascii ''v''" "[103, 101, 102]" "ascii ''https://kolesa.kz''"
         "[Ids [101, 102, 103], Failed, Ids [103], Ids [], Ids [104]]"]
  note t2 = enqueue_idempotent [of 102 "[retried_row]" "ascii ''u''"
         "ascii ''v''" "[103, 101, 102]" "ascii ''https://kolesa.kz''"
         "[Ids [101, 102, 103], Failed, Ids [103], Ids [], Ids [104]]"]
  have a: "enqueue 101 (ascii ''https://kolesa.kz/a/show/101'') [retried_row]
             = ([retried_row], 0)"
    using t1 [THEN conjunct2, THEN conjunct1] by (simp add: ids)
  have b: "enqueue 102 (ascii ''u'') [retried_row]
             = ([retried_row, new_queue_row 102 (ascii ''u'')], 1)"
    using t2 [THEN conjunct1] by (simp add: ids)
  have c2: "length (filter (\<lambda>r. q_listing_id r = 102)
        (fst (enqueue 102 (ascii ''v'') (fst (enqueue 102 (ascii ''u'') [retried_row]))))) = 1"
    using t2 [THEN conjunct2, THEN conjunct2, THEN conjunct2, THEN conjunct1] by simp
  have d: "snd (insert_ids (ascii ''https://kolesa.kz'') [103, 101, 102] [retried_row] 0) = 2"
    using t1 [THEN conjunct2, THEN conjunct2, THEN conjunct2, THEN conjunct2, THEN conjunct1]
    by (simp add: ids k)
  have e: "snd (discover_pages_to_db (ascii ''https://kolesa.kz'')
             [Ids [101, 102, 103], Failed, Ids [103], Ids [], Ids [104]] [retried_row]) = 2"
    using t1 [THEN conjunct2, THEN conjunct2, THEN conjunct2, THEN conjunct2,
              THEN conjunct2, THEN conjunct1]
    by (simp add: c ids k)
  from a b c2 d e show ?thesis
    by (intro conjI)
qed

section \<open>The batch loop and failed fetches\<close>

lemma error_page_not_blocked:
  "detect_blocking text_lib (ascii ''internal server error'')
     (ascii ''https://kolesa.kz/a/show/101'') = (False, None)"
  by code_simp

lemma fetch_failure_is_None:
  assumes "w_nav w = Nav_Error msg
           \<or> (w_nav w = Page status html \<and> 400 \<le> status \<and> status \<noteq> 404
               \<and> \<not> fst (detect_blocking L html u))"
  shows "fetch_single_listing L digest w lid u use_db use_s3 db = (Inr None, db)"
proof -
  have "\<exists>m. fetch_body L digest w lid u use_db use_s3 db = Inl (Exception m)"
    using assms
    by (cases "detect_blocking L html u"; cases "w_archive_error w")
       (auto simp: fetch_body_def then_do_def raise_if_def Let_def)
  then show ?thesis
    by (auto simp: fetch_single_listing_def)
qed

lemma attempt_failure_retried:
  "w_mark_attempt_error w = Some msg \<Longrightarrow>
   process_item L digest w (lid, u, attempts) wh =
     (wh\<lparr>wh_queue := schedule_retry (w_retry_now w) lid (attempts + 1) 0 msg (wh_queue wh)\<rparr>,
      0, False)"
  by (simp add: process_item_def)

lemma update_state_rows:
  assumes "r \<in> set (update_state lid st code err queue)" and "q_listing_id r = lid"
  shows "q_state r = st \<and> q_last_http_status r = Some code \<and> q_next_retry_at r = None"
proof -
  from assms(1) obtain x where x: "x \<in> set queue"
    and r: "r = (if q_listing_id x = lid
                 then x\<lparr>q_state := st, q_last_http_status := Some code,
                        q_last_error := err, q_next_retry_at := None\<rparr>
                 else x)"
    unfolding update_state_def sql_update_def by auto
  show ?thesis
  proof (cases "q_listing_id x = lid")
    case True
    with r show ?thesis by simp
  next
    case False
    with r assms(2) show ?thesis by simp
  qed
qed

text \<open>
  C1 against the code. An entry whose fetch fails inside \<open>fetch_single_listing\<close>, be it
  by an exception of the navigation or by an HTTP status from 400 on other than 404 on a
  page that is not a block page, is not scheduled for retry: the function swallows the
  exception and returns \<open>None\<close>, which the batch loop takes for a removed listing. The
  entry becomes INACTIVE with status 404 and no retry time. (An exception raised in the
  loop body itself, such as a failing attempt update, does reach \<open>schedule_retry\<close>:
  \<open>attempt_failure_retried\<close>.)
\<close>

theorem failed_fetch_marked_inactive:
  assumes "w_mark_attempt_error w = None" and "w_update_state_error w = None"
    and "w_nav w = Nav_Error msg
         \<or> (w_nav w = Page status html \<and> 400 \<le> status \<and> status \<noteq> 404
             \<and> \<not> fst (detect_blocking L html u))"
  shows "process_item L digest w (lid, u, attempts) wh =
           (wh\<lparr>wh_queue :=
                 update_state lid INACTIVE 404 None (mark_attempt (w_now w) lid (wh_queue wh))\<rparr>,
            0, False)
         \<and> (\<forall>r\<in>set (wh_queue (fst (process_item L digest w (lid, u, attempts) wh))).
               q_listing_id r = lid \<longrightarrow>
                 q_state r = INACTIVE \<and> q_last_http_status r = Some 404
                 \<and> q_next_retry_at r = None)"
proof -
  have "fetch_single_listing L digest w lid u True True (wh_silver wh) = (Inr None, wh_silver wh)"
    using assms(3) by (rule fetch_failure_is_None)
  with assms(1,2) have p: "process_item L digest w (lid, u, attempts) wh =
           (wh\<lparr>wh_queue :=
                 update_state lid INACTIVE 404 None (mark_attempt (w_now w) lid (wh_queue wh))\<rparr>,
            0, False)"
    by (simp add: process_item_def Let_def)
  show ?thesis
    unfolding p by (simp add: update_state_rows)
qed

lemma claim_one_new:
  "claim_batch 1 100 200 (wh_queue one_new) (wh_locks one_new)
     = ([(101, ascii ''https://kolesa.kz/a/show/101'', 0)], Map.empty)"
  by (auto simp: claim_batch_def select_for_update_skip_locked_def one_new_def new_queue_row_def
      eligible_def free_for_def lock_rows_def commit_def fun_eq_iff)

theorem failed_fetch_marked_inactive_witness:
  "w_nav server_error = Page 500 (ascii ''internal server error'')
   \<and> wh_queue (fst (fetch_and_process_batch text_lib no_digest (\<lambda>lid. server_error)
                      1 100 200 one_new))
       = [\<lparr>q_listing_id = 101, q_url = ascii ''https://kolesa.kz/a/show/101'',
           q_state = INACTIVE, q_attempts = 1, q_last_attempt_at = Some 100,
           q_next_retry_at = None, q_last_http_status = Some 404, q_last_error = None\<rparr>]
   \<and> snd (fetch_and_process_batch text_lib no_digest (\<lambda>lid. server_error) 1 100 200 one_new)
       = 0"
proof -
  have w: "w_mark_attempt_error server_error = None" "w_update_state_error server_error = None"
    "w_nav server_error = Nav_Error []
     \<or> (w_nav server_error = Page 500 (ascii ''internal server error'')
         \<and> (400::int) \<le> 500 \<and> (500::int) \<noteq> 404
         \<and> \<not> fst (detect_blocking text_lib (ascii ''internal server error'')
                    (ascii ''https://kolesa.kz/a/show/101'')))"
    by (simp_all add: server_error_def error_page_not_blocked)
  note p = failed_fetch_marked_inactive
             [OF w, of no_digest 101 0 "one_new\<lparr>wh_locks := Map.empty\<rparr>", THEN conjunct1]
  have "fetch_and_process_batch text_lib no_digest (\<lambda>lid. server_error) 1 100 200 one_new
          = (one_new\<lparr>wh_locks := Map.empty,
                     wh_queue := update_state 101 INACTIVE 404 None
                                   (mark_attempt (w_now server_error) 101 (wh_queue one_new))\<rparr>,
             0)"
    unfolding fetch_and_process_batch_def claim_one_new by (simp add: p)
  then show ?thesis
    by (simp add: one_new_def server_error_def update_state_def mark_attempt_def sql_update_def
        new_queue_row_def)
qed

section \<open>Claiming is not exclusive\<close>

lemma select_locks_returned:
  "(lid, u, a) \<in> set (fst (select_for_update_skip_locked s now n queue locks)) \<Longrightarrow>
   snd (select_for_update_skip_locked s now n queue locks) lid = Some s"
  by (auto simp: select_for_update_skip_locked_def lock_rows_def list_ex_iff Let_def)

lemma select_only_free:
  assumes "(lid, u, a) \<in> set (fst (select_for_update_skip_locked s now n queue locks))"
  shows "locks lid = None \<or> locks lid = Some s"
proof -
  from assms obtain x where "free_for s locks x" "lid = q_listing_id x"
    by (auto simp: select_for_update_skip_locked_def Let_def dest!: in_set_takeD)
  then show ?thesis
    by (cases "locks lid") (auto simp: free_for_def)
qed

text \<open>Inside the transactions the selection is exclusive.\<close>

lemma skip_locked_disjoint:
  assumes "s1 \<noteq> s2"
  shows "fst ` set (fst (select_for_update_skip_locked s1 now n queue locks))
         \<inter> fst ` set (fst (select_for_update_skip_locked s2 now' n' queue'
                               (snd (select_for_update_skip_locked s1 now n queue locks))))
         = {}"
proof (rule ccontr)
  assume "\<not> ?thesis"
  then obtain lid u a u' a'
    where 1: "(lid, u, a) \<in> set (fst (select_for_update_skip_locked s1 now n queue locks))"
      and 2: "(lid, u', a') \<in> set (fst (select_for_update_skip_locked s2 now' n' queue'
                               (snd (select_for_update_skip_locked s1 now n queue locks))))"
    by auto
  from select_locks_returned [OF 1] select_only_free [OF 2] assms
  show False by auto
qed

lemma claim_batch_releases:
  "snd (claim_batch s now n queue Map.empty) = Map.empty"
  by (auto simp: claim_batch_def select_for_update_skip_locked_def commit_def lock_rows_def
      fun_eq_iff Let_def)

lemma free_for_empty: "free_for s Map.empty r"
  by (simp add: free_for_def)

lemma claim_batch_unlocked:
  "fst (claim_batch s now n queue Map.empty)
     = map (\<lambda>r. (q_listing_id r, q_url r, q_attempts r)) (take n (filter (eligible now) queue))"
  by (simp add: claim_batch_def select_for_update_skip_locked_def free_for_empty Let_def)

lemma mark_attempt_eligible:
  "filter (eligible now) (mark_attempt t lid queue)
     = mark_attempt t lid (filter (eligible now) queue)"
  by (induction queue) (auto simp: mark_attempt_def sql_update_def eligible_def)

lemma mark_attempt_ids:
  "map q_listing_id (mark_attempt t lid queue) = map q_listing_id queue"
  by (induction queue) (auto simp: mark_attempt_def sql_update_def)

text \<open>
  C4 against the code. The claim releases its row locks as soon as the rows are read, and
  it leaves the rows in their state; so a second claimer that comes after the commit of
  the first, even while the first is already processing (it has recorded its attempt on
  one of the rows), is given the same listing ids. Only selections whose transactions
  overlap are disjoint (\<open>skip_locked_disjoint\<close>).
\<close>

theorem claim_not_exclusive:
  "map fst (fst (claim_batch s2 now n (mark_attempt t lid queue)
                   (snd (claim_batch s1 now n queue Map.empty))))
     = map fst (fst (claim_batch s1 now n queue Map.empty))"
proof -
  have "map fst (fst (claim_batch s2 now n (mark_attempt t lid queue) Map.empty))
      = map q_listing_id (take n (mark_attempt t lid (filter (eligible now) queue)))"
    by (simp add: claim_batch_unlocked mark_attempt_eligible comp_def)
  also have "\<dots> = take n (map q_listing_id (mark_attempt t lid (filter (eligible now) queue)))"
    by (simp add: take_map)
  also have "\<dots> = take n (map q_listing_id (filter (eligible now) queue))"
    by (simp add: mark_attempt_ids)
  also have "\<dots> = map fst (fst (claim_batch s1 now n queue Map.empty))"
    by (simp add: claim_batch_unlocked take_map comp_def)
  finally show ?thesis
    by (simp add: claim_batch_releases)
qed

theorem claim_not_exclusive_witness:
  "fst (claim_batch 1 100 200 (wh_queue one_new) Map.empty)
     = [(101, ascii ''https://kolesa.kz/a/show/101'', 0)]
   \<and> fst (claim_batch 2 100 200 (mark_attempt 100 101 (wh_queue one_new))
            (snd (claim_batch 1 100 200 (wh_queue one_new) Map.empty)))
     = [(101, ascii ''https://kolesa.kz/a/show/101'', 1)]"
proof -
  have a: "fst (claim_batch 1 100 200 (wh_queue one_new) Map.empty)
     = [(101, ascii ''https://kolesa.kz/a/show/101'', 0)]"
    by (simp add: claim_batch_unlocked one_new_def new_queue_row_def eligible_def)
  have "fst (claim_batch 2 100 200 (mark_attempt 100 101 (wh_queue one_new)) Map.empty)
     = [(101, ascii ''https://kolesa.kz/a/show/101'', 1)]"
    by (simp add: claim_batch_unlocked one_new_def new_queue_row_def eligible_def
        mark_attempt_def sql_update_def)
  with a claim_not_exclusive [of 2 100 200 100 101 "wh_queue one_new" 1]
  show ?thesis
    by (simp add: claim_batch_releases)
qed

end
